theory Spec2Isabelle
  imports Complex_Main "HOL-Library.AList" "HOL-Library.Log_Nat"
begin

section \<open>Python values\<close>

text \<open>
  The training-job orchestrator of \<^verbatim>\<open>ml-services/app\<close> is ordinary Python: objects with
  attributes, dictionaries, strings, integers, floats and \<^verbatim>\<open>datetime\<close> values. Values whose
  type the code leaves open (the caller's configuration, a metrics dictionary, the values of
  a serialised job) are \<open>pyval\<close>s. A dictionary is an association list in insertion order
  with distinct keys: \<open>map_of\<close> reads it, \<open>AList.update\<close> assigns a key in place or appends
  it, as a Python \<^verbatim>\<open>dict\<close> does.

  A naive \<^verbatim>\<open>datetime\<close> is the number of microseconds since \<^verbatim>\<open>datetime.min\<close>; the clock
  (\<^verbatim>\<open>datetime.now()\<close>) is an argument of every operation that reads it.
\<close>

type_synonym datetime = nat

datatype pyval =
    PNone
  | PBool bool
  | PInt int
  | PFloat rat
  | PStr string
  | PDatetime datetime
  | PList "pyval list"
  | PDict "(string \<times> pyval) list"

text \<open>
  The exceptions the modelled code can raise. \<open>NotOfDeclaredType k\<close> is not a Python
  exception: Python stores any value in any attribute, the records below are typed, and a
  dictionary whose entry \<open>k\<close> holds a value outside the type the class uses for that attribute
  is outside what the typed model represents; the model says so instead of inventing a result.
\<close>

datatype py_error =
    TypeError
  | ValueError
  | KeyError
  | OverflowError
  | NotOfDeclaredType string

definition sum_bind :: "'e + 'a \<Rightarrow> ('a \<Rightarrow> 'e + 'b) \<Rightarrow> 'e + 'b" where
  "sum_bind r f = (case r of Inl e \<Rightarrow> Inl e | Inr x \<Rightarrow> f x)"

subsection \<open>Binary64 arithmetic\<close>

text \<open>
  Python's \<^verbatim>\<open>float\<close> is IEEE 754 binary64. A float is modelled by the rational it denotes;
  every operation computes exactly and rounds to the nearest double, ties to even. The
  magnitudes that occur (progress fractions, metrics, success rates) are far from overflow and
  from the subnormal range, which are not modelled. \<open>round_pos p q\<close> rounds the positive
  rational \<open>p / q\<close>: \<open>exponent2 p q\<close> is \<open>\<lfloor>log\<^sub>2 (p / q)\<rfloor>\<close>, and the result keeps 53 significant
  bits.
\<close>

definition round_half_even :: "int \<Rightarrow> int \<Rightarrow> int" where
  "round_half_even p q =
     (let f = p div q; r = p mod q in
      if 2 * r < q then f else if q < 2 * r then f + 1 else if even f then f else f + 1)"

definition exponent2 :: "int \<Rightarrow> int \<Rightarrow> int" where
  "exponent2 p q =
     (let d = bitlen p - bitlen q in
      if 0 \<le> d then (if q * 2 ^ nat d \<le> p then d else d - 1)
      else (if q \<le> p * 2 ^ nat (- d) then d else d - 1))"

definition round_pos :: "int \<Rightarrow> int \<Rightarrow> rat" where
  "round_pos p q =
     (let s = exponent2 p q - 52 in
      if 0 \<le> s then of_int (round_half_even p (q * 2 ^ nat s) * 2 ^ nat s)
      else Fract (round_half_even (p * 2 ^ nat (- s)) q) (2 ^ nat (- s)))"

definition round_double :: "rat \<Rightarrow> rat" where
  "round_double x =
     (let (p, q) = quotient_of x in
      if p = 0 then 0 else if 0 < p then round_pos p q else - round_pos (- p) q)"

definition fdiv :: "rat \<Rightarrow> rat \<Rightarrow> rat" where
  "fdiv x y = round_double (x / y)"

definition fmul :: "rat \<Rightarrow> rat \<Rightarrow> rat" where
  "fmul x y = round_double (x * y)"

definition fadd :: "rat \<Rightarrow> rat \<Rightarrow> rat" where
  "fadd x y = round_double (x + y)"

definition fsub :: "rat \<Rightarrow> rat \<Rightarrow> rat" where
  "fsub x y = round_double (x - y)"

text \<open>A decimal literal such as \<^verbatim>\<open>0.8\<close> is the double nearest to it.\<close>

definition flit :: "int \<Rightarrow> int \<Rightarrow> rat" where
  "flit p q = round_double (Fract p q)"

section \<open>The TrainingJob class\<close>

text \<open>
  \<^verbatim>\<open>models/training_job.py\<close>. The record has the attributes that \<^verbatim>\<open>__init__\<close> assigns, with
  the types the class and the service use for them. \<open>extra_attrs\<close> holds every other instance
  attribute: the ones \<^verbatim>\<open>__init__\<close> sets from \<^verbatim>\<open>**kwargs\<close>, and the \<^verbatim>\<open>metrics\<close> attribute that
  the service assigns when a job completes.
\<close>

record TrainingJob =
  job_id :: string
  model_name :: string
  algorithm :: string
  config :: pyval
  status :: string
  started_at :: "datetime option"
  completed_at :: "datetime option"
  created_by :: string
  job_type :: string
  progress :: int
  current_metrics :: "(string \<times> pyval) list"
  final_metrics :: "(string \<times> pyval) list"
  model_path :: "string option"
  error_message :: "string option"
  tuning_strategy :: "string option"
  max_trials :: "int option"
  estimated_completion :: "datetime option"
  extra_attrs :: "(string \<times> pyval) list"

text \<open>
  \<^verbatim>\<open>__init__\<close> without keyword extras, as the service calls it. \<^verbatim>\<open>started_at or datetime.now()\<close>:
  a \<^verbatim>\<open>datetime\<close> is always truthy, so only \<^verbatim>\<open>None\<close> is replaced by the clock.
\<close>

definition TrainingJob_init ::
  "datetime \<Rightarrow> string \<Rightarrow> string \<Rightarrow> string \<Rightarrow> pyval \<Rightarrow> string \<Rightarrow> datetime option \<Rightarrow>
   datetime option \<Rightarrow> string \<Rightarrow> string \<Rightarrow> TrainingJob" where
  "TrainingJob_init now jid mname alg cfg st started completed creator jtype =
     \<lparr> job_id = jid, model_name = mname, algorithm = alg, config = cfg, status = st,
       started_at = (case started of Some d \<Rightarrow> Some d | None \<Rightarrow> Some now),
       completed_at = completed, created_by = creator, job_type = jtype,
       progress = 0, current_metrics = [], final_metrics = [],
       model_path = None, error_message = None,
       tuning_strategy = None, max_trials = None, estimated_completion = None,
       extra_attrs = [] \<rparr>"

subsection \<open>Reading typed values out of a dictionary\<close>

definition as_str :: "string \<Rightarrow> pyval \<Rightarrow> py_error + string" where
  "as_str k v = (case v of PStr s \<Rightarrow> Inr s | _ \<Rightarrow> Inl (NotOfDeclaredType k))"

definition as_opt_str :: "string \<Rightarrow> pyval \<Rightarrow> py_error + string option" where
  "as_opt_str k v =
     (case v of PNone \<Rightarrow> Inr None | PStr s \<Rightarrow> Inr (Some s) | _ \<Rightarrow> Inl (NotOfDeclaredType k))"

definition as_int :: "string \<Rightarrow> pyval \<Rightarrow> py_error + int" where
  "as_int k v = (case v of PInt n \<Rightarrow> Inr n | _ \<Rightarrow> Inl (NotOfDeclaredType k))"

definition as_opt_int :: "string \<Rightarrow> pyval \<Rightarrow> py_error + int option" where
  "as_opt_int k v =
     (case v of PNone \<Rightarrow> Inr None | PInt n \<Rightarrow> Inr (Some n) | _ \<Rightarrow> Inl (NotOfDeclaredType k))"

definition as_opt_datetime :: "string \<Rightarrow> pyval \<Rightarrow> py_error + datetime option" where
  "as_opt_datetime k v =
     (case v of PNone \<Rightarrow> Inr None | PDatetime d \<Rightarrow> Inr (Some d)
      | _ \<Rightarrow> Inl (NotOfDeclaredType k))"

definition as_dict :: "string \<Rightarrow> pyval \<Rightarrow> py_error + (string \<times> pyval) list" where
  "as_dict k v = (case v of PDict d \<Rightarrow> Inr d | _ \<Rightarrow> Inl (NotOfDeclaredType k))"

text \<open>
  \<^verbatim>\<open>setattr(self, key, value)\<close> in the loop over \<^verbatim>\<open>kwargs\<close>: an attribute of the record is
  overwritten, any other name becomes an extra attribute.
\<close>

definition setattr :: "TrainingJob \<Rightarrow> string \<times> pyval \<Rightarrow> py_error + TrainingJob" where
  "setattr j kv =
     (let k = fst kv; v = snd kv in
      if k = ''progress'' then sum_bind (as_int k v) (\<lambda>x. Inr (j\<lparr>progress := x\<rparr>))
      else if k = ''current_metrics'' then
        sum_bind (as_dict k v) (\<lambda>x. Inr (j\<lparr>current_metrics := x\<rparr>))
      else if k = ''final_metrics'' then
        sum_bind (as_dict k v) (\<lambda>x. Inr (j\<lparr>final_metrics := x\<rparr>))
      else if k = ''model_path'' then
        sum_bind (as_opt_str k v) (\<lambda>x. Inr (j\<lparr>model_path := x\<rparr>))
      else if k = ''error_message'' then
        sum_bind (as_opt_str k v) (\<lambda>x. Inr (j\<lparr>error_message := x\<rparr>))
      else if k = ''tuning_strategy'' then
        sum_bind (as_opt_str k v) (\<lambda>x. Inr (j\<lparr>tuning_strategy := x\<rparr>))
      else if k = ''max_trials'' then
        sum_bind (as_opt_int k v) (\<lambda>x. Inr (j\<lparr>max_trials := x\<rparr>))
      else if k = ''estimated_completion'' then
        sum_bind (as_opt_datetime k v) (\<lambda>x. Inr (j\<lparr>estimated_completion := x\<rparr>))
      else Inr (j\<lparr>extra_attrs := AList.update k v (extra_attrs j)\<rparr>))"

fun setattrs :: "TrainingJob \<Rightarrow> (string \<times> pyval) list \<Rightarrow> py_error + TrainingJob" where
  "setattrs j [] = Inr j"
| "setattrs j (kv # kvs) = sum_bind (setattr j kv) (\<lambda>j'. setattrs j' kvs)"

text \<open>
  \<^verbatim>\<open>cls(**data)\<close>: the keys that name a parameter of \<^verbatim>\<open>__init__\<close> are bound to it, the four
  parameters without a default are required (\<^verbatim>\<open>TypeError\<close> when one is missing), and the
  other keys arrive in \<^verbatim>\<open>kwargs\<close>. A key \<^verbatim>\<open>self\<close> gives the first parameter a second value,
  which is a \<^verbatim>\<open>TypeError\<close> as well.
\<close>

definition init_params :: "string list" where
  "init_params = [''job_id'', ''model_name'', ''algorithm'', ''config'', ''status'',
     ''started_at'', ''completed_at'', ''created_by'', ''job_type'']"

definition required :: "string \<Rightarrow> (string \<times> pyval) list \<Rightarrow> py_error + pyval" where
  "required k data = (case map_of data k of None \<Rightarrow> Inl TypeError | Some v \<Rightarrow> Inr v)"

definition optional :: "string \<Rightarrow> pyval \<Rightarrow> (string \<times> pyval) list \<Rightarrow> pyval" where
  "optional k dflt data = (case map_of data k of None \<Rightarrow> dflt | Some v \<Rightarrow> v)"

definition TrainingJob_call :: "datetime \<Rightarrow> (string \<times> pyval) list \<Rightarrow> py_error + TrainingJob" where
  "TrainingJob_call now data =
     (if map_of data ''self'' \<noteq> None then Inl TypeError else
     sum_bind (required ''job_id'' data) (\<lambda>v1.
     sum_bind (required ''model_name'' data) (\<lambda>v2.
     sum_bind (required ''algorithm'' data) (\<lambda>v3.
     sum_bind (required ''config'' data) (\<lambda>cfg.
     sum_bind (as_str ''job_id'' v1) (\<lambda>jid.
     sum_bind (as_str ''model_name'' v2) (\<lambda>mname.
     sum_bind (as_str ''algorithm'' v3) (\<lambda>alg.
     sum_bind (as_str ''status'' (optional ''status'' (PStr ''queued'') data)) (\<lambda>st.
     sum_bind (as_opt_datetime ''started_at'' (optional ''started_at'' PNone data)) (\<lambda>started.
     sum_bind (as_opt_datetime ''completed_at'' (optional ''completed_at'' PNone data))
       (\<lambda>completed.
     sum_bind (as_str ''created_by'' (optional ''created_by'' (PStr ''system'') data))
       (\<lambda>creator.
     sum_bind (as_str ''job_type'' (optional ''job_type'' (PStr ''training'') data)) (\<lambda>jtype.
       setattrs (TrainingJob_init now jid mname alg cfg st started completed creator jtype)
         (filter (\<lambda>kv. fst kv \<notin> set init_params) data))))))))))))))"

text \<open>
  \<^verbatim>\<open>from_dict\<close>. \<^verbatim>\<open>datetime.fromisoformat\<close> belongs to the Python library and is a
  parameter: \<open>None\<close> is its \<^verbatim>\<open>ValueError\<close> on a string that is not an ISO date.
\<close>

definition parse_iso ::
  "(string \<Rightarrow> datetime option) \<Rightarrow> string \<Rightarrow> (string \<times> pyval) list \<Rightarrow>
   py_error + (string \<times> pyval) list" where
  "parse_iso fromisoformat k data =
     (case map_of data k of
        Some (PStr s) \<Rightarrow>
          (case fromisoformat s of
             None \<Rightarrow> Inl ValueError
           | Some d \<Rightarrow> Inr (AList.update k (PDatetime d) data))
      | _ \<Rightarrow> Inr data)"

definition from_dict ::
  "(string \<Rightarrow> datetime option) \<Rightarrow> datetime \<Rightarrow> (string \<times> pyval) list \<Rightarrow>
   py_error + TrainingJob" where
  "from_dict fromisoformat now data =
     sum_bind (parse_iso fromisoformat ''started_at'' data) (\<lambda>d1.
     sum_bind (parse_iso fromisoformat ''completed_at'' d1) (\<lambda>d2.
     sum_bind (parse_iso fromisoformat ''estimated_completion'' d2) (\<lambda>d3.
       TrainingJob_call now d3)))"

text \<open>\<^verbatim>\<open>to_dict\<close>, with the library's \<^verbatim>\<open>datetime.isoformat\<close> as a parameter.\<close>

definition iso_or_none :: "(datetime \<Rightarrow> string) \<Rightarrow> datetime option \<Rightarrow> pyval" where
  "iso_or_none isoformat d = (case d of Some t \<Rightarrow> PStr (isoformat t) | None \<Rightarrow> PNone)"

definition str_or_none :: "string option \<Rightarrow> pyval" where
  "str_or_none s = (case s of Some t \<Rightarrow> PStr t | None \<Rightarrow> PNone)"

definition int_or_none :: "int option \<Rightarrow> pyval" where
  "int_or_none n = (case n of Some t \<Rightarrow> PInt t | None \<Rightarrow> PNone)"

definition to_dict :: "(datetime \<Rightarrow> string) \<Rightarrow> TrainingJob \<Rightarrow> (string \<times> pyval) list" where
  "to_dict isoformat j =
     [(''job_id'', PStr (job_id j)),
      (''model_name'', PStr (model_name j)),
      (''algorithm'', PStr (algorithm j)),
      (''config'', config j),
      (''status'', PStr (status j)),
      (''started_at'', iso_or_none isoformat (started_at j)),
      (''completed_at'', iso_or_none isoformat (completed_at j)),
      (''created_by'', PStr (created_by j)),
      (''job_type'', PStr (job_type j)),
      (''progress'', PInt (progress j)),
      (''current_metrics'', PDict (current_metrics j)),
      (''final_metrics'', PDict (final_metrics j)),
      (''model_path'', str_or_none (model_path j)),
      (''error_message'', str_or_none (error_message j)),
      (''tuning_strategy'', str_or_none (tuning_strategy j)),
      (''max_trials'', int_or_none (max_trials j)),
      (''estimated_completion'', iso_or_none isoformat (estimated_completion j))]"

definition is_completed :: "TrainingJob \<Rightarrow> bool" where
  "is_completed j \<longleftrightarrow> status j \<in> {''completed'', ''failed'', ''cancelled''}"

definition is_running :: "TrainingJob \<Rightarrow> bool" where
  "is_running j \<longleftrightarrow> status j = ''running''"

definition is_successful :: "TrainingJob \<Rightarrow> bool" where
  "is_successful j \<longleftrightarrow> status j = ''completed''"

subsection \<open>Serialisation round trip\<close>

lemmas decode_defs = required_def optional_def sum_bind_def as_str_def
  as_opt_datetime_def init_params_def TrainingJob_init_def setattr_def as_int_def as_dict_def
  as_opt_str_def as_opt_int_def str_or_none_def int_or_none_def iso_or_none_def

text \<open>
  \<^verbatim>\<open>__init__\<close> never leaves \<^verbatim>\<open>started_at\<close> empty: this is the invariant of the class that the
  round trip below relies on.
\<close>

lemma TrainingJob_init_started:
  "started_at (TrainingJob_init now jid mname alg cfg st started completed creator jtype) \<noteq> None"
  by (simp add: TrainingJob_init_def split: option.splits)

text \<open>
  Claim C10. For a job whose \<^verbatim>\<open>started_at\<close> holds a datetime (as every job built by
  \<^verbatim>\<open>__init__\<close> does), and with \<^verbatim>\<open>datetime.fromisoformat\<close> inverting \<^verbatim>\<open>datetime.isoformat\<close> as the
  Python library documents, \<^verbatim>\<open>from_dict(job.to_dict())\<close> succeeds and rebuilds the job: every
  attribute that \<^verbatim>\<open>to_dict\<close> serialises (id, model name, algorithm, config, status, the
  timestamps, creator, job type, progress, current and final metrics, model path, error
  message and the tuning fields) has its original value. Only attributes that \<^verbatim>\<open>to_dict\<close>
  does not write, \<open>extra_attrs\<close>, are absent from the copy.
\<close>

theorem from_dict_to_dict:
  assumes iso: "\<And>d. fromisoformat (isoformat d) = Some d"
    and started: "started_at j \<noteq> None"
  shows "from_dict fromisoformat now (to_dict isoformat j) = Inr (j\<lparr>extra_attrs := []\<rparr>)"
proof (cases j)
  case (fields jid mn alg cfg st sa ca cb jt pr cm fm mp em ts mt ec ex)
  obtain t where t: "sa = Some t"
    using started fields by auto
  have parsed: "from_dict fromisoformat now (to_dict isoformat j) =
      TrainingJob_call now
        [(''job_id'', PStr jid), (''model_name'', PStr mn), (''algorithm'', PStr alg),
         (''config'', cfg), (''status'', PStr st), (''started_at'', PDatetime t),
         (''completed_at'', (case ca of None \<Rightarrow> PNone | Some d \<Rightarrow> PDatetime d)),
         (''created_by'', PStr cb), (''job_type'', PStr jt), (''progress'', PInt pr),
         (''current_metrics'', PDict cm), (''final_metrics'', PDict fm),
         (''model_path'', str_or_none mp), (''error_message'', str_or_none em),
         (''tuning_strategy'', str_or_none ts), (''max_trials'', int_or_none mt),
         (''estimated_completion'', (case ec of None \<Rightarrow> PNone | Some d \<Rightarrow> PDatetime d))]"
    unfolding from_dict_def to_dict_def parse_iso_def
    by (simp add: iso_or_none_def iso sum_bind_def t fields split: option.splits)
  show ?thesis
    unfolding parsed
    by (simp add: TrainingJob_call_def decode_defs fields t split: option.splits)
qed

text \<open>
  The round trip at a job that has run: a toy \<^verbatim>\<open>isoformat\<close> (a date as that many marks)
  with its inverse discharges the library assumption.
\<close>

definition job0 :: TrainingJob where
  "job0 = (TrainingJob_init 5 ''j1'' ''rf'' ''random_forest'' (PDict []) ''queued'' (Some 5) None
             ''system'' ''training'')
          \<lparr>status := ''completed'', completed_at := Some 9, progress := 100,
           current_metrics := [(''epoch'', PInt 9)], model_path := Some ''models/rf_j1'',
           extra_attrs := [(''metrics'', PDict [])]\<rparr>"

theorem from_dict_to_dict_witness:
  "from_dict (\<lambda>s. Some (length s)) 7 (to_dict (\<lambda>d. replicate d CHR ''I'') job0) =
     Inr (job0\<lparr>extra_attrs := []\<rparr>)
   \<and> started_at job0 \<noteq> None \<and> status job0 = ''completed''"
  using from_dict_to_dict [of "\<lambda>s. Some (length s)" "\<lambda>d. replicate d CHR ''I''" job0 7]
  by (simp add: job0_def TrainingJob_init_def)

section \<open>The training service\<close>

text \<open>
  \<^verbatim>\<open>services/training_service.py\<close>, with the \<^verbatim>\<open>TrainingConfig\<close> of \<^verbatim>\<open>models/training_config.py\<close> that
  \<^verbatim>\<open>start_training\<close> reads (\<^verbatim>\<open>experiment_name\<close> is a string once \<^verbatim>\<open>__init__\<close> has run).
\<close>

record TrainingConfig =
  cfg_model_name :: string
  cfg_algorithm :: string
  dataset_version :: string
  experiment_name :: string
  hyperparameter_tuning :: bool
  cfg_config :: "(string \<times> pyval) list"

definition config_to_dict :: "TrainingConfig \<Rightarrow> pyval" where
  "config_to_dict c =
     PDict [(''model_name'', PStr (cfg_model_name c)),
            (''algorithm'', PStr (cfg_algorithm c)),
            (''dataset_version'', PStr (dataset_version c)),
            (''experiment_name'', PStr (experiment_name c)),
            (''hyperparameter_tuning'', PBool (hyperparameter_tuning c)),
            (''config'', PDict (cfg_config c))]"

text \<open>
  The statements of a worker thread that read or write shared state, by the line of
  \<^verbatim>\<open>training_service.py\<close> they stand before:
  \<open>At_member\<close> 52 (\<^verbatim>\<open>if job_id in self.training_jobs\<close>), \<open>At_lookup\<close> 87--88,
  \<open>At_status_running\<close> 94, \<open>At_started_at\<close> 95, \<open>At_running_jobs\<close> 96,
  \<open>In_loop step\<close> 135--146 (one iteration of \<^verbatim>\<open>_simulate_training\<close>),
  \<open>At_status_completed\<close> 104, \<open>At_completed_at\<close> 105, \<open>At_progress\<close> 106, \<open>At_model_path\<close> 109,
  \<open>At_metrics\<close> 110--115, \<open>At_status_failed\<close> 121, \<open>At_error_message\<close> 122 (both carry
  \<^verbatim>\<open>str(e)\<close>), \<open>At_failed_at\<close> 123, \<open>At_finally\<close> 127.
\<close>

datatype label =
    At_member
  | At_lookup
  | At_status_running
  | At_started_at
  | At_running_jobs
  | In_loop nat
  | At_status_completed
  | At_completed_at
  | At_progress
  | At_model_path
  | At_metrics
  | At_status_failed string
  | At_error_message string
  | At_failed_at
  | At_finally

datatype worker = Idle | Busy string label

text \<open>
  The state of a \<^verbatim>\<open>TrainingService\<close>: the dictionary of jobs in insertion order, the FIFO
  queue of job ids, the number of workers, the keys of \<^verbatim>\<open>running_jobs\<close>, and where each
  worker thread stands. \<^verbatim>\<open>__init__\<close> reads \<^verbatim>\<open>config.get('max_concurrent_jobs', 3)\<close>;
  \<^verbatim>\<open>range\<close> of a number that is not positive starts no worker.
\<close>

record TrainingService =
  training_jobs :: "(string \<times> TrainingJob) list"
  job_queue :: "string list"
  max_concurrent_jobs :: int
  running_jobs :: "string list"
  workers :: "nat \<Rightarrow> worker"

definition TrainingService_init :: "int option \<Rightarrow> TrainingService" where
  "TrainingService_init cfg =
     \<lparr> training_jobs = [], job_queue = [],
       max_concurrent_jobs = (case cfg of None \<Rightarrow> 3 | Some n \<Rightarrow> n),
       running_jobs = [], workers = (\<lambda>i. Idle) \<rparr>"

definition start_training ::
  "string \<Rightarrow> TrainingConfig \<Rightarrow> datetime \<Rightarrow> TrainingService \<Rightarrow> TrainingJob \<times> TrainingService" where
  "start_training jid cfg now s =
     (let training_job = TrainingJob_init now jid (cfg_model_name cfg) (cfg_algorithm cfg)
            (config_to_dict cfg) ''queued'' (Some now) None ''system'' ''training''
      in (training_job,
          s\<lparr>training_jobs := AList.update jid training_job (training_jobs s),
            job_queue := job_queue s @ [jid]\<rparr>))"

text \<open>
  \<^verbatim>\<open>start_hyperparameter_tuning\<close>. \<^verbatim>\<open>tuning_request['model_name']\<close> raises \<^verbatim>\<open>KeyError\<close>
  on a missing key; \<^verbatim>\<open>datetime.now() + timedelta(minutes=max_trials * 2)\<close> raises
  \<^verbatim>\<open>OverflowError\<close> when the result leaves the range of \<^verbatim>\<open>datetime\<close>. Nothing is stored when
  the call raises. The two reads of the clock in the method are one instant here.
\<close>

definition datetime_max :: nat where
  "datetime_max = 315537897599999999"

definition subscript :: "(string \<times> pyval) list \<Rightarrow> string \<Rightarrow> py_error + pyval" where
  "subscript d k = (case map_of d k of None \<Rightarrow> Inl KeyError | Some v \<Rightarrow> Inr v)"

definition plus_minutes :: "datetime \<Rightarrow> int \<Rightarrow> py_error + datetime" where
  "plus_minutes now m =
     (let t = int now + m * 60000000 in
      if 0 \<le> t \<and> t \<le> int datetime_max then Inr (nat t) else Inl OverflowError)"

definition start_hyperparameter_tuning ::
  "string \<Rightarrow> (string \<times> pyval) list \<Rightarrow> datetime \<Rightarrow> TrainingService \<Rightarrow>
   py_error + TrainingJob \<times> TrainingService" where
  "start_hyperparameter_tuning jid tuning_request now s =
     sum_bind (subscript tuning_request ''model_name'') (\<lambda>v1.
     sum_bind (subscript tuning_request ''algorithm'') (\<lambda>v2.
     sum_bind (as_str ''model_name'' v1) (\<lambda>mname.
     sum_bind (as_str ''algorithm'' v2) (\<lambda>alg.
     sum_bind (as_str ''tuning_strategy''
                (optional ''tuning_strategy'' (PStr ''random'') tuning_request)) (\<lambda>strategy.
     sum_bind (as_int ''max_trials'' (optional ''max_trials'' (PInt 50) tuning_request))
       (\<lambda>trials.
     sum_bind (plus_minutes now (trials * 2)) (\<lambda>eta.
       let tuning_job =
             (TrainingJob_init now jid mname alg (PDict tuning_request) ''queued'' (Some now)
                None ''system'' ''hyperparameter_tuning'')
             \<lparr>tuning_strategy := Some strategy, max_trials := Some trials,
              estimated_completion := Some eta\<rparr>
       in Inr (tuning_job,
               s\<lparr>training_jobs := AList.update jid tuning_job (training_jobs s),
                 job_queue := job_queue s @ [jid]\<rparr>))))))))"

definition get_training_job :: "TrainingService \<Rightarrow> string \<Rightarrow> TrainingJob option" where
  "get_training_job s jid = map_of (training_jobs s) jid"

text \<open>
  \<^verbatim>\<open>list_training_jobs\<close>. \<^verbatim>\<open>if status:\<close> filters only for a non-empty string.
  \<^verbatim>\<open>jobs.sort(key=lambda x: x.started_at, reverse=True)\<close> is stable and raises \<^verbatim>\<open>TypeError\<close>
  when it has to compare a \<^verbatim>\<open>None\<close>. \<^verbatim>\<open>jobs[:limit]\<close> with a negative limit drops that
  many jobs from the end.
\<close>

definition sort_newest_first :: "TrainingJob list \<Rightarrow> py_error + TrainingJob list" where
  "sort_newest_first jobs =
     (if 2 \<le> length jobs \<and> (\<exists>j \<in> set jobs. started_at j = None) then Inl TypeError
      else Inr (rev (sort_key (\<lambda>j. case started_at j of Some d \<Rightarrow> d | None \<Rightarrow> 0) (rev jobs))))"

definition slice_to :: "int \<Rightarrow> 'a list \<Rightarrow> 'a list" where
  "slice_to limit xs =
     (if 0 \<le> limit then take (nat limit) xs else take (nat (int (length xs) + limit)) xs)"

definition list_training_jobs ::
  "TrainingService \<Rightarrow> int \<Rightarrow> string option \<Rightarrow> py_error + TrainingJob list" where
  "list_training_jobs s limit st =
     (let jobs = map snd (training_jobs s);
          jobs = (case st of
                    None \<Rightarrow> jobs
                  | Some x \<Rightarrow> if x = [] then jobs else filter (\<lambda>job. status job = x) jobs)
      in sum_bind (sort_newest_first jobs) (\<lambda>sorted. Inr (slice_to limit sorted)))"

text \<open>
  \<^verbatim>\<open>running_jobs.pop(job_id, None)\<close> and \<^verbatim>\<open>running_jobs[job_id] = job\<close> on the keys of the
  dictionary, and \<^verbatim>\<open>cancel_training_job\<close>. A \<^verbatim>\<open>TrainingJob\<close> object is always truthy, so
  \<^verbatim>\<open>if not job\<close> is the test for a missing id.
\<close>

definition dict_pop :: "string \<Rightarrow> string list \<Rightarrow> string list" where
  "dict_pop k ks = removeAll k ks"

definition dict_add :: "string \<Rightarrow> string list \<Rightarrow> string list" where
  "dict_add k ks = (if k \<in> set ks then ks else ks @ [k])"

definition cancel_training_job ::
  "string \<Rightarrow> datetime \<Rightarrow> TrainingService \<Rightarrow> bool \<times> TrainingService" where
  "cancel_training_job jid now s =
     (case map_of (training_jobs s) jid of
        None \<Rightarrow> (False, s)
      | Some job \<Rightarrow>
          if status job \<in> {''queued'', ''running''} then
            (True,
             s\<lparr>training_jobs :=
                 AList.map_entry jid (\<lambda>j. j\<lparr>status := ''cancelled'', completed_at := Some now\<rparr>)
                   (training_jobs s),
               running_jobs := dict_pop jid (running_jobs s)\<rparr>)
          else (False, s))"

text \<open>
  \<^verbatim>\<open>get_training_statistics\<close>: the loop over the jobs that fills \<^verbatim>\<open>status_counts\<close>, the two
  \<^verbatim>\<open>status_counts.get(..., 0)\<close>, and the conditional expression whose other branch is the
  integer \<^verbatim>\<open>0\<close>.
\<close>

definition count_status :: "(string \<times> int) list \<Rightarrow> TrainingJob \<Rightarrow> (string \<times> int) list" where
  "count_status status_counts job =
     AList.update (status job)
       ((case map_of status_counts (status job) of None \<Rightarrow> 0 | Some c \<Rightarrow> c) + 1) status_counts"

definition get_or_zero :: "(string \<times> int) list \<Rightarrow> string \<Rightarrow> int" where
  "get_or_zero d k = (case map_of d k of None \<Rightarrow> 0 | Some c \<Rightarrow> c)"

record TrainingStatistics =
  total_jobs :: nat
  status_breakdown :: "(string \<times> int) list"
  success_rate :: pyval
  currently_running :: nat
  queue_size :: nat
  stat_max_concurrent_jobs :: int
  timestamp :: string

definition get_training_statistics ::
  "(datetime \<Rightarrow> string) \<Rightarrow> datetime \<Rightarrow> TrainingService \<Rightarrow> TrainingStatistics" where
  "get_training_statistics isoformat now s =
     (let status_counts = foldl count_status [] (map snd (training_jobs s));
          completed_jobs = get_or_zero status_counts ''completed'';
          failed_jobs = get_or_zero status_counts ''failed''
      in \<lparr> total_jobs = length (training_jobs s),
           status_breakdown = status_counts,
           success_rate =
             (if 0 < completed_jobs + failed_jobs
              then PFloat (fdiv (of_int completed_jobs) (of_int (completed_jobs + failed_jobs)))
              else PInt 0),
           currently_running = length (running_jobs s),
           queue_size = length (job_queue s),
           stat_max_concurrent_jobs = max_concurrent_jobs s,
           timestamp = isoformat now \<rparr>)"

definition n_status :: "string \<Rightarrow> TrainingService \<Rightarrow> nat" where
  "n_status st s = length (filter (\<lambda>job. status job = st) (map snd (training_jobs s)))"

subsection \<open>Statistics\<close>

lemma get_or_zero_count:
  "get_or_zero (foldl count_status acc jobs) st =
     get_or_zero acc st + int (length (filter (\<lambda>job. status job = st) jobs))"
proof (induction jobs arbitrary: acc)
  case Nil
  show ?case by simp
next
  case (Cons job jobs)
  have "get_or_zero (count_status acc job) st =
          get_or_zero acc st + (if status job = st then 1 else 0)"
    by (simp add: get_or_zero_def count_status_def update_conv')
  then show ?case
    using Cons.IH [of "count_status acc job"] by simp
qed

text \<open>
  Claim C8. \<^verbatim>\<open>get_training_statistics\<close> counts the jobs per status in a dictionary and reads
  the entries \<^verbatim>\<open>completed\<close> and \<^verbatim>\<open>failed\<close> back. Its \<^verbatim>\<open>success_rate\<close> is the integer \<open>0\<close> when
  no job is completed or failed, and otherwise Python's quotient (the float division, rounded
  to a double) of the number of completed jobs by the number of completed plus failed jobs.
  \<open>n_status\<close> counts the jobs of the store with one status, so jobs that are queued, running
  or cancelled occur nowhere in the quotient.
\<close>

theorem success_rate_eq:
  "success_rate (get_training_statistics isoformat now s) =
     (if n_status ''completed'' s + n_status ''failed'' s = 0 then PInt 0
      else PFloat (fdiv (of_nat (n_status ''completed'' s))
                        (of_nat (n_status ''completed'' s + n_status ''failed'' s))))"
proof -
  have c: "get_or_zero (foldl count_status [] (map snd (training_jobs s))) st =
             int (n_status st s)" for st
    by (simp add: get_or_zero_count n_status_def) (simp add: get_or_zero_def)
  show ?thesis
    unfolding get_training_statistics_def Let_def c
    by (simp del: of_nat_add add: of_nat_add [symmetric])
qed

subsection \<open>Submission\<close>

lemma start_training_result:
  "start_training jid cfg now s = (job, s') \<Longrightarrow>
     status job = ''queued'' \<and> progress job = 0 \<and> job_id job = jid \<and>
     get_training_job s' jid = Some job \<and> job_queue s' = job_queue s @ [jid] \<and>
     workers s' = workers s \<and> running_jobs s' = running_jobs s"
  by (auto simp: start_training_def get_training_job_def update_conv' TrainingJob_init_def
      Let_def)

lemma start_hyperparameter_tuning_result:
  "start_hyperparameter_tuning jid req now s = Inr (job, s') \<Longrightarrow>
     status job = ''queued'' \<and> progress job = 0 \<and> job_id job = jid \<and>
     get_training_job s' jid = Some job \<and> job_queue s' = job_queue s @ [jid] \<and>
     workers s' = workers s \<and> running_jobs s' = running_jobs s"
  by (auto simp: start_hyperparameter_tuning_def get_training_job_def update_conv'
      TrainingJob_init_def Let_def sum_bind_def split: sum.splits)

text \<open>
  Claim C7. \<^verbatim>\<open>start_training\<close> (and \<^verbatim>\<open>start_hyperparameter_tuning\<close>, whenever it accepts the
  request) creates a job with status \<^verbatim>\<open>queued\<close> and progress 0, stores it under its id, appends
  the id to the job queue and returns: no worker has moved and nothing was added to the
  running jobs. \<^verbatim>\<open>get_training_job\<close> on the state it returns, before any worker takes a
  step, gives that job.
\<close>

theorem submit_queued:
  "(\<forall>job s'. start_training jid cfg now s = (job, s') \<longrightarrow>
      status job = ''queued'' \<and> progress job = 0 \<and>
      get_training_job s' jid = Some job \<and> job_queue s' = job_queue s @ [jid] \<and>
      workers s' = workers s \<and> running_jobs s' = running_jobs s) \<and>
   (\<forall>job s'. start_hyperparameter_tuning jid req now s = Inr (job, s') \<longrightarrow>
      status job = ''queued'' \<and> progress job = 0 \<and>
      get_training_job s' jid = Some job \<and> job_queue s' = job_queue s @ [jid] \<and>
      workers s' = workers s \<and> running_jobs s' = running_jobs s)"
  using start_training_result start_hyperparameter_tuning_result by blast

text \<open>Both submissions on a fresh service with the default three workers.\<close>

definition cfg0 :: TrainingConfig where
  "cfg0 = \<lparr> cfg_model_name = ''rf'', cfg_algorithm = ''random_forest'',
            dataset_version = ''latest'', experiment_name = ''rf_experiment'',
            hyperparameter_tuning = False, cfg_config = [] \<rparr>"

definition req0 :: "(string \<times> pyval) list" where
  "req0 = [(''model_name'', PStr ''rf''), (''algorithm'', PStr ''random_forest''),
           (''max_trials'', PInt 10), (''parameter_space'', PDict [])]"

theorem submit_queued_witness:
  "(case start_training ''j1'' cfg0 3 (TrainingService_init None) of
      (job, s') \<Rightarrow>
        status job = ''queued'' \<and> progress job = 0 \<and> get_training_job s' ''j1'' = Some job \<and>
        job_queue s' = [''j1''] \<and> workers s' 0 = Idle) \<and>
   (case start_hyperparameter_tuning ''j1'' req0 3 (TrainingService_init None) of
      Inl e \<Rightarrow> False
    | Inr (job, s') \<Rightarrow>
        status job = ''queued'' \<and> progress job = 0 \<and> get_training_job s' ''j1'' = Some job \<and>
        job_queue s' = [''j1''] \<and> estimated_completion job = Some 1200000003)"
  using submit_queued [of "''j1''" cfg0 3 "TrainingService_init None" req0]
  by (simp add: start_training_def start_hyperparameter_tuning_def TrainingService_init_def
      TrainingJob_init_def get_training_job_def update_conv' sum_bind_def subscript_def
      optional_def as_str_def as_int_def plus_minutes_def datetime_max_def req0_def Let_def)

subsection \<open>Cancellation\<close>

lemma cancel_result:
  "fst (cancel_training_job jid now s) \<longleftrightarrow>
     (\<exists>job. get_training_job s jid = Some job \<and> status job \<in> {''queued'', ''running''})"
  by (auto simp: cancel_training_job_def get_training_job_def split: option.splits)

lemma cancel_effect:
  assumes "fst (cancel_training_job jid now s)"
  shows "\<exists>job. get_training_job s jid = Some job \<and>
           get_training_job (snd (cancel_training_job jid now s)) jid =
             Some (job\<lparr>status := ''cancelled'', completed_at := Some now\<rparr>)"
  using assms
  by (auto simp: cancel_training_job_def get_training_job_def map_of_map_entry
      split: option.splits if_splits)

lemma cancel_again:
  "\<not> fst (cancel_training_job jid now' (snd (cancel_training_job jid now s)))"
  by (auto simp: cancel_training_job_def map_of_map_entry split: option.splits if_splits)

text \<open>
  One call of \<^verbatim>\<open>cancel_training_job\<close>. It returns \<^verbatim>\<open>True\<close> exactly when the store has a job
  under the id whose status is \<^verbatim>\<open>queued\<close> or \<^verbatim>\<open>running\<close>. When it does, the job it leaves under
  the id is the old one with status \<^verbatim>\<open>cancelled\<close> and \<^verbatim>\<open>completed_at\<close> the time of the call. A
  second call on the very state the first one returns gives \<^verbatim>\<open>False\<close>. What a second call
  returns after a worker has run in between is settled with the runs of one job below.
\<close>

lemma cancel_training_job_call:
  "(fst (cancel_training_job jid now s) \<longleftrightarrow>
      (\<exists>job. get_training_job s jid = Some job \<and> status job \<in> {''queued'', ''running''})) \<and>
   (fst (cancel_training_job jid now s) \<longrightarrow>
      (\<exists>job. get_training_job s jid = Some job \<and>
         get_training_job (snd (cancel_training_job jid now s)) jid =
           Some (job\<lparr>status := ''cancelled'', completed_at := Some now\<rparr>))) \<and>
   \<not> fst (cancel_training_job jid now' (snd (cancel_training_job jid now s)))"
  using cancel_result [of jid now s] cancel_effect [of jid now s] cancel_again [of jid now' now s]
  by blast

text \<open>A queued job is cancelled at time 8; the second call, at time 9, is refused.\<close>

lemma cancel_training_job_call_example:
  "fst (cancel_training_job ''j1'' 8 (snd (start_training ''j1'' cfg0 3 (TrainingService_init None)))) \<and>
   map_option (\<lambda>job. (status job, completed_at job))
     (get_training_job
        (snd (cancel_training_job ''j1'' 8
           (snd (start_training ''j1'' cfg0 3 (TrainingService_init None))))) ''j1'') =
     Some (''cancelled'', Some 8) \<and>
   \<not> fst (cancel_training_job ''j1'' 9
          (snd (cancel_training_job ''j1'' 8
             (snd (start_training ''j1'' cfg0 3 (TrainingService_init None))))))"
  using cancel_training_job_call
    [of "''j1''" 8 "snd (start_training ''j1'' cfg0 3 (TrainingService_init None))" 9]
  by (simp add: start_training_def cancel_training_job_def TrainingService_init_def
      TrainingJob_init_def get_training_job_def update_conv' map_of_map_entry Let_def)

subsection \<open>Listing\<close>

text \<open>
  The service method is \<^verbatim>\<open>list_training_jobs(self, limit=100, status=None)\<close>; the controller
  of \<^verbatim>\<open>GET /jobs\<close> calls it with the keywords \<^verbatim>\<open>status\<close>, \<^verbatim>\<open>limit\<close> and \<^verbatim>\<open>offset\<close>. Python binds
  keyword arguments by name and raises \<^verbatim>\<open>TypeError\<close>, before the body runs, for a keyword that
  names no parameter. \<open>list_training_jobs_kw\<close> is the method called with keywords. The
  controller catches every exception and answers 500; its query arguments \<^verbatim>\<open>limit\<close> and
  \<^verbatim>\<open>offset\<close> are taken as parsed integers (a text that \<^verbatim>\<open>int\<close> rejects raises \<^verbatim>\<open>ValueError\<close> and
  gives the same answer).
\<close>

definition list_training_jobs_kw ::
  "TrainingService \<Rightarrow> (string \<times> pyval) list \<Rightarrow> py_error + TrainingJob list" where
  "list_training_jobs_kw s kwargs =
     (if list_all (\<lambda>k. k \<in> {''limit'', ''status''}) (map fst kwargs) then
        sum_bind (as_int ''limit'' (optional ''limit'' (PInt 100) kwargs)) (\<lambda>limit.
        sum_bind (as_opt_str ''status'' (optional ''status'' PNone kwargs)) (\<lambda>st.
          list_training_jobs s limit st))
      else Inl TypeError)"

record list_response =
  resp_jobs :: "(string \<times> pyval) list list"
  resp_limit :: int
  resp_offset :: int
  resp_total :: nat

definition controller_list_training_jobs ::
  "(datetime \<Rightarrow> string) \<Rightarrow> TrainingService \<Rightarrow> string option \<Rightarrow> int option \<Rightarrow> int option \<Rightarrow>
   nat \<times> list_response option" where
  "controller_list_training_jobs isoformat s st limit_arg offset_arg =
     (let limit = min (case limit_arg of None \<Rightarrow> 50 | Some n \<Rightarrow> n) 200;
          offset = (case offset_arg of None \<Rightarrow> 0 | Some n \<Rightarrow> n)
      in case list_training_jobs_kw s
                [(''status'', str_or_none st), (''limit'', PInt limit), (''offset'', PInt offset)] of
           Inl e \<Rightarrow> (500, None)
         | Inr jobs \<Rightarrow>
             (200, Some \<lparr> resp_jobs = map (to_dict isoformat) jobs, resp_limit = limit,
                          resp_offset = offset, resp_total = length jobs \<rparr>))"

text \<open>
  Claim C4. The listing the claim describes (newest first, filtered by status, \<^verbatim>\<open>offset\<close>
  records skipped, at most \<^verbatim>\<open>limit\<close> returned) is what the controller asks for, and the service
  does not provide it: the method has no \<^verbatim>\<open>offset\<close> parameter, so for every store and every
  status, limit and offset the call raises \<^verbatim>\<open>TypeError\<close> and the endpoint answers 500 without
  any record.
\<close>

theorem list_endpoint_fails:
  "controller_list_training_jobs isoformat s st limit_arg offset_arg = (500, None)"
  by (simp add: controller_list_training_jobs_def list_training_jobs_kw_def Let_def)

text \<open>
  Called without \<^verbatim>\<open>offset\<close>, the method itself returns the first \<^verbatim>\<open>limit\<close> jobs of the selected
  ones in descending order of \<^verbatim>\<open>started_at\<close>, the attribute that \<^verbatim>\<open>_execute_training_job\<close>
  overwrites when a job starts to run.
\<close>

lemma list_training_jobs_page:
  assumes "\<forall>job \<in> set (map snd (training_jobs s)). started_at job \<noteq> None" and "0 \<le> limit"
  shows "\<exists>jobs. list_training_jobs s limit st = Inr (take (nat limit) jobs) \<and>
           sorted (rev (map (\<lambda>job. the (started_at job)) jobs)) \<and>
           set jobs = {job \<in> set (map snd (training_jobs s)).
                         st = None \<or> st = Some [] \<or> st = Some (status job)}"
proof -
  define sel where "sel = (case st of None \<Rightarrow> map snd (training_jobs s)
     | Some x \<Rightarrow> if x = [] then map snd (training_jobs s)
         else filter (\<lambda>job. status job = x) (map snd (training_jobs s)))"
  define key :: "TrainingJob \<Rightarrow> nat"
    where "key = (\<lambda>j. case started_at j of Some d \<Rightarrow> d | None \<Rightarrow> 0)"
  have ok: "\<forall>job \<in> set sel. started_at job \<noteq> None"
    using assms(1) by (auto simp: sel_def split: option.splits)
  then have k: "map (\<lambda>job. the (started_at job)) (rev (sort_key key (rev sel))) =
             map key (rev (sort_key key (rev sel)))"
    by (auto simp: key_def)
  have "list_training_jobs s limit st = Inr (take (nat limit) (rev (sort_key key (rev sel))))"
    using ok assms(2)
    by (auto simp: list_training_jobs_def sort_newest_first_def sum_bind_def slice_to_def
        sel_def key_def Let_def split: option.splits)
  moreover have "sorted (rev (map (\<lambda>job. the (started_at job)) (rev (sort_key key (rev sel)))))"
    unfolding k by (simp add: rev_map [symmetric])
  moreover have "set (rev (sort_key key (rev sel))) =
      {job \<in> set (map snd (training_jobs s)). st = None \<or> st = Some [] \<or> st = Some (status job)}"
    by (auto simp: sel_def split: option.splits)
  ultimately show ?thesis
    by blast
qed

section \<open>The worker threads\<close>

text \<open>
  \<^verbatim>\<open>_start_workers\<close> starts \<^verbatim>\<open>max_concurrent_jobs\<close> threads that run \<^verbatim>\<open>_training_worker\<close>. The
  threads share the store, the queue and the job objects with each other and with the callers
  of the service, so their statements interleave. A worker is either blocked in
  \<^verbatim>\<open>job_queue.get\<close> (\<open>Idle\<close>) or holds the id it dequeued and stands before one statement
  of \<^verbatim>\<open>_training_worker\<close> / \<^verbatim>\<open>_execute_training_job\<close> / \<^verbatim>\<open>_simulate_training\<close> (a \<open>label\<close>).
  \<open>exec\<close> runs that one statement. One iteration of the training loop (the sleep, the
  progress assignment and the metrics assignment of every tenth step) is one step.

  The store holds the jobs by value under their ids. The Python worker keeps a reference to
  the object it looked up; the two agree as long as an id is stored once, which is how the
  controller uses the service (every submission gets a fresh \<^verbatim>\<open>uuid4\<close>); \<open>step\<close> below only
  accepts submissions under an id that is not stored yet. \<open>running_jobs\<close> keeps the keys of
  the Python dictionary: its values are the same job objects and are never read.

  \<^verbatim>\<open>hash\<close> (Python's string hash, salted per process) is a parameter.
\<close>

definition total_steps :: nat where
  "total_steps = 100"

definition py_int :: "rat \<Rightarrow> int" where
  "py_int x = (if 0 \<le> x then \<lfloor>x\<rfloor> else \<lceil>x\<rceil>)"

definition progress_at :: "nat \<Rightarrow> int" where
  "progress_at step = py_int (fmul (fdiv (of_nat (step + 1)) (of_nat total_steps)) 100)"

definition step_metrics :: "nat \<Rightarrow> (string \<times> pyval) list" where
  "step_metrics step =
     [(''loss'', PFloat (fsub 1 (fmul (fdiv (of_nat step) (of_nat total_steps)) (flit 8 10)))),
      (''accuracy'',
         PFloat (fadd (flit 5 10) (fmul (fdiv (of_nat step) (of_nat total_steps)) (flit 4 10)))),
      (''epoch'', PInt (int step div 10))]"

definition job_metrics :: "(string \<Rightarrow> int) \<Rightarrow> string \<Rightarrow> pyval" where
  "job_metrics hash jid =
     PDict [(''accuracy'', PFloat (fadd (flit 95 100) (fdiv (of_int (hash jid mod 50)) 1000))),
            (''precision'', PFloat (fadd (flit 93 100) (fdiv (of_int (hash jid mod 70)) 1000))),
            (''recall'', PFloat (fadd (flit 92 100) (fdiv (of_int (hash jid mod 80)) 1000))),
            (''f1_score'', PFloat (fadd (flit 94 100) (fdiv (of_int (hash jid mod 60)) 1000)))]"

definition modify_job ::
  "string \<Rightarrow> (TrainingJob \<Rightarrow> TrainingJob) \<Rightarrow> TrainingService \<Rightarrow> TrainingService" where
  "modify_job jid f s = s\<lparr>training_jobs := AList.map_entry jid f (training_jobs s)\<rparr>"

definition loop_body :: "nat \<Rightarrow> TrainingJob \<Rightarrow> TrainingJob" where
  "loop_body step job =
     job\<lparr>progress := progress_at step,
         current_metrics := (if step mod 10 = 0 then step_metrics step else current_metrics job)\<rparr>"

text \<open>
  \<^verbatim>\<open>for step in range(total_steps)\<close>: the iteration \<open>step\<close> is next while \<open>step < total_steps\<close>;
  after the last one the loop ends and \<^verbatim>\<open>_execute_training_job\<close> goes on with the statement
  after the call.
\<close>

definition loop_label :: "nat \<Rightarrow> label" where
  "loop_label step = (if step < total_steps then In_loop step else At_status_completed)"

fun exec ::
  "(string \<Rightarrow> int) \<Rightarrow> datetime \<Rightarrow> string \<Rightarrow> label \<Rightarrow> TrainingService \<Rightarrow> worker \<times> TrainingService" where
  "exec hash now jid At_member s =
     (if map_of (training_jobs s) jid = None then Idle else Busy jid At_lookup, s)"
| "exec hash now jid At_lookup s =
     (if map_of (training_jobs s) jid = None then Idle else Busy jid At_status_running, s)"
| "exec hash now jid At_status_running s =
     (Busy jid At_started_at, modify_job jid (\<lambda>job. job\<lparr>status := ''running''\<rparr>) s)"
| "exec hash now jid At_started_at s =
     (Busy jid At_running_jobs, modify_job jid (\<lambda>job. job\<lparr>started_at := Some now\<rparr>) s)"
| "exec hash now jid At_running_jobs s =
     (Busy jid (loop_label 0), s\<lparr>running_jobs := dict_add jid (running_jobs s)\<rparr>)"
| "exec hash now jid (In_loop step) s =
     (Busy jid (loop_label (Suc step)), modify_job jid (loop_body step) s)"
| "exec hash now jid At_status_completed s =
     (Busy jid At_completed_at, modify_job jid (\<lambda>job. job\<lparr>status := ''completed''\<rparr>) s)"
| "exec hash now jid At_completed_at s =
     (Busy jid At_progress, modify_job jid (\<lambda>job. job\<lparr>completed_at := Some now\<rparr>) s)"
| "exec hash now jid At_progress s =
     (Busy jid At_model_path, modify_job jid (\<lambda>job. job\<lparr>progress := 100\<rparr>) s)"
| "exec hash now jid At_model_path s =
     (Busy jid At_metrics,
      modify_job jid (\<lambda>job. job\<lparr>model_path := Some (''models/'' @ model_name job @ ''_'' @ jid)\<rparr>) s)"
| "exec hash now jid At_metrics s =
     (Busy jid At_finally,
      modify_job jid
        (\<lambda>job. job\<lparr>extra_attrs := AList.update ''metrics'' (job_metrics hash jid) (extra_attrs job)\<rparr>)
        s)"
| "exec hash now jid (At_status_failed msg) s =
     (Busy jid (At_error_message msg), modify_job jid (\<lambda>job. job\<lparr>status := ''failed''\<rparr>) s)"
| "exec hash now jid (At_error_message msg) s =
     (Busy jid At_failed_at, modify_job jid (\<lambda>job. job\<lparr>error_message := Some msg\<rparr>) s)"
| "exec hash now jid At_failed_at s =
     (Busy jid At_finally, modify_job jid (\<lambda>job. job\<lparr>completed_at := Some now\<rparr>) s)"
| "exec hash now jid At_finally s =
     (Idle, s\<lparr>running_jobs := dict_pop jid (running_jobs s)\<rparr>)"

text \<open>
  The statements inside the \<^verbatim>\<open>try\<close> block. An exception raised there (the event \<open>Raise\<close>
  below, with \<^verbatim>\<open>str(e)\<close>) leaves the statement without effect and takes the worker to the
  \<^verbatim>\<open>except\<close> clause, then to \<^verbatim>\<open>finally\<close>.
\<close>

fun in_try :: "label \<Rightarrow> bool" where
  "in_try At_status_running = True"
| "in_try At_started_at = True"
| "in_try At_running_jobs = True"
| "in_try (In_loop step) = True"
| "in_try At_status_completed = True"
| "in_try At_completed_at = True"
| "in_try At_progress = True"
| "in_try At_model_path = True"
| "in_try At_metrics = True"
| "in_try l = False"

text \<open>
  One step of worker \<open>i\<close>: \<^verbatim>\<open>job_queue.get(timeout=1)\<close> takes the head of the queue, or
  times out and is tried again (the state stays as it is); a worker that holds an id runs its
  next statement. \<^verbatim>\<open>task_done\<close> only counts for \<^verbatim>\<open>Queue.join\<close>, which nothing calls.
\<close>

definition training_worker ::
  "(string \<Rightarrow> int) \<Rightarrow> nat \<Rightarrow> datetime \<Rightarrow> TrainingService \<Rightarrow> TrainingService" where
  "training_worker hash i now s =
     (case workers s i of
        Idle \<Rightarrow>
          (case job_queue s of
             [] \<Rightarrow> s
           | jid # rest \<Rightarrow> s\<lparr>job_queue := rest, workers := (workers s)(i := Busy jid At_member)\<rparr>)
      | Busy jid l \<Rightarrow>
          (case exec hash now jid l s of
             (w, s') \<Rightarrow> s'\<lparr>workers := (workers s')(i := w)\<rparr>))"

text \<open>
  What can happen to the service: a submission through the controller (under a fresh id), a
  call of \<^verbatim>\<open>cancel_training_job\<close>, a step of a worker, an exception in a worker. \<open>step\<close> is
  \<open>None\<close> for an event that cannot happen in the state. \<^verbatim>\<open>get_training_job\<close>,
  \<^verbatim>\<open>list_training_jobs\<close> and \<^verbatim>\<open>get_training_statistics\<close> only read.
\<close>

datatype event =
    Submit string TrainingConfig datetime
  | Submit_tuning string "(string \<times> pyval) list" datetime
  | Cancel string datetime
  | Work nat datetime
  | Raise nat string

fun step :: "(string \<Rightarrow> int) \<Rightarrow> event \<Rightarrow> TrainingService \<Rightarrow> TrainingService option" where
  "step hash (Submit jid cfg now) s =
     (if map_of (training_jobs s) jid = None then Some (snd (start_training jid cfg now s))
      else None)"
| "step hash (Submit_tuning jid req now) s =
     (if map_of (training_jobs s) jid = None then
        (case start_hyperparameter_tuning jid req now s of
           Inl e \<Rightarrow> Some s
         | Inr r \<Rightarrow> Some (snd r))
      else None)"
| "step hash (Cancel jid now) s = Some (snd (cancel_training_job jid now s))"
| "step hash (Work i now) s =
     (if int i < max_concurrent_jobs s then Some (training_worker hash i now s) else None)"
| "step hash (Raise i msg) s =
     (if int i < max_concurrent_jobs s then
        (case workers s i of
           Idle \<Rightarrow> None
         | Busy jid l \<Rightarrow>
             if in_try l then Some (s\<lparr>workers := (workers s)(i := Busy jid (At_status_failed msg))\<rparr>)
             else None)
      else None)"

fun run :: "(string \<Rightarrow> int) \<Rightarrow> event list \<Rightarrow> TrainingService \<Rightarrow> TrainingService option" where
  "run hash [] s = Some s"
| "run hash (e # es) s = (case step hash e s of None \<Rightarrow> None | Some s' \<Rightarrow> run hash es s')"

subsection \<open>The progress values\<close>

text \<open>
  \<^verbatim>\<open>int((step + 1) / total_steps * 100)\<close> in binary64 is not always \<open>step + 1\<close>: the steps 28, 56
  and 57 give 28, 56 and 57. The table is computed from \<open>progress_at\<close>; the values lie between
  1 and 100, never decrease, and the last one is 100.
\<close>

definition progress_values :: "int list" where
  "progress_values = [1, 2, 3, 4, 5, 6, 7, 8, 9, 10, 11, 12, 13, 14, 15, 16, 17, 18, 19, 20, 21, 22, 23, 24, 25, 26, 27, 28, 28, 30, 31, 32, 33, 34, 35, 36, 37, 38, 39, 40, 41, 42, 43, 44, 45, 46, 47, 48, 49, 50, 51, 52, 53, 54, 55, 56, 56, 57, 59, 60, 61, 62, 63, 64, 65, 66, 67, 68, 69, 70, 71, 72, 73, 74, 75, 76, 77, 78, 79, 80, 81, 82, 83, 84, 85, 86, 87, 88, 89, 90, 91, 92, 93, 94, 95, 96, 97, 98, 99, 100]"

lemma progress_table: "map progress_at [0..<100] = progress_values"
  unfolding progress_values_def by code_simp

lemma progress_values_length: "length progress_values = 100"
  by (simp add: progress_values_def)

lemma progress_at_nth: "k < 100 \<Longrightarrow> progress_at k = progress_values ! k"
proof -
  assume k: "k < 100"
  then have "map progress_at [0..<100] ! k = progress_at k"
    by (simp del: upt_Suc)
  then show ?thesis
    by (simp add: progress_table)
qed

lemma progress_values_range: "\<forall>x \<in> set progress_values. 1 \<le> x \<and> x \<le> 100"
  by (simp add: progress_values_def)

lemma progress_values_sorted: "sorted progress_values"
  unfolding progress_values_def by (simp only: sorted2 sorted1 simp_thms) simp

lemma progress_at_range: "k < total_steps \<Longrightarrow> 1 \<le> progress_at k \<and> progress_at k \<le> 100"
proof -
  assume "k < total_steps"
  then have k: "k < 100"
    by (simp add: total_steps_def)
  then have "progress_values ! k \<in> set progress_values"
    by (simp add: progress_values_length)
  then show ?thesis
    using progress_values_range k by (simp add: progress_at_nth)
qed

lemma progress_at_mono:
  assumes "k \<le> k'" and "k' < total_steps"
  shows "progress_at k \<le> progress_at k'"
proof -
  have k: "k' < 100" "k < 100"
    using assms by (simp_all add: total_steps_def)
  have "progress_values ! k \<le> progress_values ! k'"
    using progress_values_sorted assms(1) k(1)
    by (simp add: sorted_iff_nth_mono progress_values_length)
  then show ?thesis
    using k by (simp add: progress_at_nth)
qed

lemma progress_at_last: "progress_at (total_steps - 1) = 100"
  by (simp add: progress_at_nth total_steps_def) (simp add: progress_values_def)

subsection \<open>One worker, one job\<close>

text \<open>
  \<open>stands_at s i jid l job\<close>: worker \<open>i\<close> exists, holds \<open>jid\<close> before the statement \<open>l\<close>, and the
  store has \<open>job\<close> under \<open>jid\<close>. The lemmas compose the single statements into the parts of
  \<^verbatim>\<open>_execute_training_job\<close>: six steps from the queue to the first iteration, the iterations of
  the loop (\<open>loop_from k n\<close> is the effect of \<open>n\<close> iterations from step \<open>k\<close>), six steps from the
  end of the loop back to the queue.
\<close>

definition stands_at :: "TrainingService \<Rightarrow> nat \<Rightarrow> string \<Rightarrow> label \<Rightarrow> TrainingJob \<Rightarrow> bool" where
  "stands_at s i jid l job \<longleftrightarrow>
     int i < max_concurrent_jobs s \<and> workers s i = Busy jid l \<and>
     map_of (training_jobs s) jid = Some job"

fun loop_from :: "nat \<Rightarrow> nat \<Rightarrow> TrainingJob \<Rightarrow> TrainingJob" where
  "loop_from k 0 job = job"
| "loop_from k (Suc n) job = loop_from (Suc k) n (loop_body k job)"

lemma run_append:
  "run h (xs @ ys) s = (case run h xs s of None \<Rightarrow> None | Some s' \<Rightarrow> run h ys s')"
  by (induction xs arbitrary: s) (auto split: option.splits)

lemmas work_defs = training_worker_def modify_job_def map_of_map_entry dict_add_def dict_pop_def

lemma pickup:
  assumes "int i < max_concurrent_jobs s" and "workers s i = Idle"
    and "job_queue s = jid # q" and "map_of (training_jobs s) jid = Some job"
  shows "\<exists>s'. run h (replicate 6 (Work i now)) s = Some s' \<and>
           stands_at s' i jid (In_loop 0) (job\<lparr>status := ''running'', started_at := Some now\<rparr>) \<and>
           job_queue s' = q"
  using assms by (simp add: eval_nat_numeral stands_at_def work_defs total_steps_def loop_label_def)

lemma loop_step:
  assumes "stands_at s i jid (In_loop k) job"
  shows "\<exists>s'. step h (Work i now) s = Some s' \<and>
           stands_at s' i jid (loop_label (Suc k))
             (loop_body k job) \<and> job_queue s' = job_queue s"
  using assms by (simp add: stands_at_def work_defs)

lemma loop_steps:
  assumes "stands_at s i jid (In_loop k) job" and "k + n \<le> total_steps" and "0 < n"
  shows "\<exists>s'. run h (replicate n (Work i now)) s = Some s' \<and>
           stands_at s' i jid (loop_label (k + n))
             (loop_from k n job) \<and> job_queue s' = job_queue s"
  using assms
proof (induction n arbitrary: s k job)
  case 0
  then show ?case by simp
next
  case (Suc n)
  obtain s1 where s1: "step h (Work i now) s = Some s1"
    "stands_at s1 i jid (loop_label (Suc k))
       (loop_body k job)" "job_queue s1 = job_queue s"
    using loop_step [OF Suc.prems(1)] by blast
  show ?case
  proof (cases n)
    case 0
    then show ?thesis using s1 by auto
  next
    case (Suc m)
    then have "Suc k < total_steps"
      using Suc.prems(2) by simp
    then have a: "stands_at s1 i jid (In_loop (Suc k)) (loop_body k job)"
      using s1(2) by (simp add: loop_label_def)
    obtain s2 where s2: "run h (replicate n (Work i now)) s1 = Some s2"
      "stands_at s2 i jid
         (loop_label (Suc k + n))
         (loop_from (Suc k) n (loop_body k job))" "job_queue s2 = job_queue s1"
      using Suc.IH [OF a] Suc.prems(2) Suc by auto
    have "run h (replicate (Suc n) (Work i now)) s = Some s2"
      using s1(1) s2(1) by simp
    then show ?thesis
      using s2(2,3) s1(3) by simp
  qed
qed

lemma loop_body_frame:
  "status (loop_body k job) = status job \<and>
   final_metrics (loop_body k job) = final_metrics job \<and>
   model_name (loop_body k job) = model_name job \<and>
   extra_attrs (loop_body k job) = extra_attrs job \<and>
   completed_at (loop_body k job) = completed_at job \<and>
   model_path (loop_body k job) = model_path job \<and>
   progress (loop_body k job) = progress_at k"
  by (simp add: loop_body_def)

lemma loop_from_progress:
  "0 < n \<Longrightarrow> progress (loop_from k n job) = progress_at (k + n - 1)"
proof (induction n arbitrary: k job)
  case 0
  then show ?case by simp
next
  case (Suc n)
  show ?case
  proof (cases n)
    case 0
    then show ?thesis by (simp add: loop_body_frame)
  next
    case (Suc m)
    then show ?thesis
      using Suc.IH [of "Suc k" "loop_body k job"] by simp
  qed
qed

lemma loop_from_frame:
  "status (loop_from k n job) = status job \<and>
   final_metrics (loop_from k n job) = final_metrics job \<and>
   model_name (loop_from k n job) = model_name job \<and>
   extra_attrs (loop_from k n job) = extra_attrs job \<and>
   completed_at (loop_from k n job) = completed_at job \<and>
   model_path (loop_from k n job) = model_path job"
  by (induction n arbitrary: k job) (simp_all add: loop_body_frame)

lemma completion:
  assumes "stands_at s i jid At_status_completed job"
  shows "\<exists>s'. run h (replicate 6 (Work i now)) s = Some s' \<and>
           workers s' i = Idle \<and>
           map_of (training_jobs s') jid =
             Some (job\<lparr>status := ''completed'', completed_at := Some now, progress := 100,
                       model_path := Some (''models/'' @ model_name job @ ''_'' @ jid),
                       extra_attrs := AList.update ''metrics'' (job_metrics h jid) (extra_attrs job)\<rparr>)"
  using assms by (simp add: eval_nat_numeral stands_at_def work_defs)

lemma cancel_at:
  assumes "stands_at s i jid l job" and "status job \<in> {''queued'', ''running''}"
  shows "fst (cancel_training_job jid now s) \<and>
         (\<exists>s'. step h (Cancel jid now) s = Some s' \<and>
            stands_at s' i jid l (job\<lparr>status := ''cancelled'', completed_at := Some now\<rparr>))"
  using assms by (auto simp: stands_at_def cancel_training_job_def map_of_map_entry)

lemma loop_label_end: "loop_label total_steps = At_status_completed"
  by (simp add: loop_label_def)

text \<open>The executor, uninterrupted: 6 + 100 + 6 statements.\<close>

definition executed :: "(string \<Rightarrow> int) \<Rightarrow> datetime \<Rightarrow> string \<Rightarrow> TrainingJob \<Rightarrow> TrainingJob" where
  "executed h now jid job =
     (let trained = loop_from 0 total_steps (job\<lparr>status := ''running'', started_at := Some now\<rparr>)
      in trained\<lparr>status := ''completed'', completed_at := Some now, progress := 100,
                 model_path := Some (''models/'' @ model_name trained @ ''_'' @ jid),
                 extra_attrs := AList.update ''metrics'' (job_metrics h jid) (extra_attrs trained)\<rparr>)"

lemma finish_from_loop:
  assumes "stands_at s i jid (In_loop k) job" and "k < total_steps"
  shows "\<exists>s'. run h (replicate (total_steps - k + 6) (Work i now)) s = Some s' \<and>
           workers s' i = Idle \<and>
           map_of (training_jobs s') jid =
             Some ((loop_from k (total_steps - k) job)
                     \<lparr>status := ''completed'', completed_at := Some now, progress := 100,
                      model_path := Some (''models/'' @ model_name job @ ''_'' @ jid),
                      extra_attrs := AList.update ''metrics'' (job_metrics h jid) (extra_attrs job)\<rparr>)"
proof -
  obtain s1 where s1: "run h (replicate (total_steps - k) (Work i now)) s = Some s1"
    "stands_at s1 i jid At_status_completed (loop_from k (total_steps - k) job)"
    using loop_steps [OF assms(1), of "total_steps - k" h now] assms(2)
    by (auto simp: loop_label_end)
  obtain s2 where s2: "run h (replicate 6 (Work i now)) s1 = Some s2" "workers s2 i = Idle"
    "map_of (training_jobs s2) jid =
       Some ((loop_from k (total_steps - k) job)
               \<lparr>status := ''completed'', completed_at := Some now, progress := 100,
                model_path :=
                  Some (''models/'' @ model_name (loop_from k (total_steps - k) job) @ ''_'' @ jid),
                extra_attrs :=
                  AList.update ''metrics'' (job_metrics h jid)
                    (extra_attrs (loop_from k (total_steps - k) job))\<rparr>)"
    using completion [OF s1(2), of h now] by blast
  have "run h (replicate (total_steps - k + 6) (Work i now)) s = Some s2"
    using s1(1) s2(1) by (simp add: replicate_add run_append)
  then show ?thesis
    using s2(2,3) by (simp add: loop_from_frame)
qed

lemma execute_training_job:
  assumes "int i < max_concurrent_jobs s" and "workers s i = Idle"
    and "job_queue s = jid # q" and "map_of (training_jobs s) jid = Some job"
  shows "\<exists>s'. run h (replicate 112 (Work i now)) s = Some s' \<and> workers s' i = Idle \<and>
           map_of (training_jobs s') jid = Some (executed h now jid job)"
proof -
  obtain s1 where s1: "run h (replicate 6 (Work i now)) s = Some s1"
    "stands_at s1 i jid (In_loop 0) (job\<lparr>status := ''running'', started_at := Some now\<rparr>)"
    using pickup [OF assms, of h now] by blast
  obtain s2 where s2: "run h (replicate (total_steps - 0 + 6) (Work i now)) s1 = Some s2"
    "workers s2 i = Idle"
    "map_of (training_jobs s2) jid = Some (executed h now jid job)"
    using finish_from_loop [OF s1(2), of h now]
    by (auto simp: executed_def Let_def total_steps_def loop_from_frame)
  have "replicate 112 (Work i now) = replicate 6 (Work i now) @ replicate (total_steps - 0 + 6) (Work i now)"
    by (simp add: total_steps_def replicate_add [symmetric])
  then have "run h (replicate 112 (Work i now)) s = Some s2"
    using s1(1) s2(1) by (simp add: run_append)
  then show ?thesis
    using s2(2,3) by blast
qed

lemma executed_fields:
  "status (executed h now jid job) = ''completed'' \<and>
   progress (executed h now jid job) = 100 \<and>
   completed_at (executed h now jid job) = Some now \<and>
   final_metrics (executed h now jid job) = final_metrics job \<and>
   model_path (executed h now jid job) = Some (''models/'' @ model_name job @ ''_'' @ jid) \<and>
   extra_attrs (executed h now jid job) =
     AList.update ''metrics'' (job_metrics h jid) (extra_attrs job)"
  by (simp add: executed_def Let_def loop_from_frame)

subsection \<open>Runs of one job\<close>

text \<open>
  A service with one worker and the job \<^verbatim>\<open>j1\<close>. \<open>observe evs jid\<close> is the status and the progress
  that \<^verbatim>\<open>get_training_job\<close> shows after the events \<open>evs\<close>, and \<open>cancel_returns evs jid now\<close>
  is what \<^verbatim>\<open>cancel_training_job\<close> returns when it is called after them.
\<close>

definition hash0 :: "string \<Rightarrow> int" where
  "hash0 s = int (length s)"

definition observe :: "event list \<Rightarrow> string \<Rightarrow> (string \<times> int) option" where
  "observe evs jid =
     (case run hash0 evs (TrainingService_init (Some 1)) of
        None \<Rightarrow> None
      | Some s \<Rightarrow> map_option (\<lambda>job. (status job, progress job)) (get_training_job s jid))"

definition cancel_returns :: "event list \<Rightarrow> string \<Rightarrow> datetime \<Rightarrow> bool option" where
  "cancel_returns evs jid now =
     map_option (\<lambda>s. fst (cancel_training_job jid now s))
       (run hash0 evs (TrainingService_init (Some 1)))"

lemmas eval_defs = TrainingService_init_def start_training_def cancel_training_job_def
  TrainingJob_init_def get_training_job_def update_conv' map_of_map_entry Let_def cfg0_def
  dict_pop_def

definition svc1 :: TrainingService where
  "svc1 = TrainingService_init (Some 1)"

definition job1 :: TrainingJob where
  "job1 = TrainingJob_init 0 ''j1'' ''rf'' ''random_forest'' (config_to_dict cfg0) ''queued''
            (Some 0) None ''system'' ''training''"

lemma submitted:
  "\<exists>s. run hash0 [Submit ''j1'' cfg0 0] svc1 = Some s \<and> int 0 < max_concurrent_jobs s \<and>
       workers s 0 = Idle \<and> job_queue s = [''j1''] \<and>
       map_of (training_jobs s) ''j1'' = Some job1"
  by (simp add: svc1_def job1_def eval_defs)

lemma training:
  assumes "0 < n" and "n \<le> total_steps"
  shows "\<exists>s. run hash0 (Submit ''j1'' cfg0 0 # replicate (6 + n) (Work 0 now)) svc1 = Some s \<and>
           stands_at s 0 ''j1'' (loop_label n)
             (loop_from 0 n (job1\<lparr>status := ''running'', started_at := Some now\<rparr>))"
proof -
  obtain s0 where s0: "run hash0 [Submit ''j1'' cfg0 0] svc1 = Some s0"
    "int 0 < max_concurrent_jobs s0" "workers s0 0 = Idle" "job_queue s0 = [''j1'']"
    "map_of (training_jobs s0) ''j1'' = Some job1"
    using submitted by blast
  obtain s1 where s1: "run hash0 (replicate 6 (Work 0 now)) s0 = Some s1"
    "stands_at s1 0 ''j1'' (In_loop 0) (job1\<lparr>status := ''running'', started_at := Some now\<rparr>)"
    using pickup [OF s0(2-5), of hash0 now] by blast
  obtain s2 where s2: "run hash0 (replicate n (Work 0 now)) s1 = Some s2"
    "stands_at s2 0 ''j1'' (loop_label (0 + n))
       (loop_from 0 n (job1\<lparr>status := ''running'', started_at := Some now\<rparr>))"
    using loop_steps [OF s1(2), of n hash0 now] assms by auto
  have "Submit ''j1'' cfg0 0 # replicate (6 + n) (Work 0 now) =
          [Submit ''j1'' cfg0 0] @ replicate 6 (Work 0 now) @ replicate n (Work 0 now)"
    by (simp add: replicate_add)
  then have "run hash0 (Submit ''j1'' cfg0 0 # replicate (6 + n) (Work 0 now)) svc1 = Some s2"
    using s0(1) s1(1) s2(1) by (simp only: run_append) simp
  then show ?thesis
    using s2(2) by auto
qed

lemma observe_stands_at:
  assumes "run hash0 evs svc1 = Some s" and "stands_at s i jid l job"
  shows "observe evs jid = Some (status job, progress job)"
  using assms by (simp add: observe_def svc1_def stands_at_def get_training_job_def)

lemma progress_at_0: "progress_at 0 = 1"
  by (simp add: progress_at_nth progress_values_def)

lemma progress_at_1: "progress_at (Suc 0) = 2"
  by (simp add: progress_at_nth progress_values_def)

lemma progress_at_99: "progress_at 99 = 100"
  using progress_at_last by (simp add: total_steps_def)

text \<open>
  Claim C3. A job that is submitted and executed without interference reaches \<^verbatim>\<open>completed\<close>
  with progress 100 and \<^verbatim>\<open>model_path\<close> set, and its \<^verbatim>\<open>final_metrics\<close> is still the empty
  dictionary of \<^verbatim>\<open>__init__\<close>: \<^verbatim>\<open>_execute_training_job\<close> stores the metrics of the run in a new
  attribute \<^verbatim>\<open>metrics\<close>, which \<^verbatim>\<open>to_dict\<close> does not serialise, so \<^verbatim>\<open>final_metrics\<close> as seen through
  \<^verbatim>\<open>get_training_job\<close> and \<^verbatim>\<open>to_dict\<close> is empty after completion.
\<close>

theorem completed_job_final_metrics_empty:
  "(case run hash0 (Submit ''j1'' cfg0 0 # replicate 112 (Work 0 1)) svc1 of
      None \<Rightarrow> None
    | Some s \<Rightarrow>
        map_option
          (\<lambda>job. (status job, progress job, model_path job, final_metrics job,
                  map fst (extra_attrs job), map_of (to_dict isoformat job) ''final_metrics''))
          (get_training_job s ''j1'')) =
   Some (''completed'', 100, Some ''models/rf_j1'', [], [''metrics''], Some (PDict []))"
proof -
  obtain s0 where s0: "run hash0 [Submit ''j1'' cfg0 0] svc1 = Some s0"
    "int 0 < max_concurrent_jobs s0" "workers s0 0 = Idle" "job_queue s0 = [''j1'']"
    "map_of (training_jobs s0) ''j1'' = Some job1"
    using submitted by blast
  obtain s' where s': "run hash0 (replicate 112 (Work 0 1)) s0 = Some s'"
    "map_of (training_jobs s') ''j1'' = Some (executed hash0 1 ''j1'' job1)"
    using execute_training_job [OF s0(2-5), of hash0 1] by blast
  have "run hash0 ([Submit ''j1'' cfg0 0] @ replicate 112 (Work 0 1)) svc1 = Some s'"
    using s0(1) s'(1) by (simp only: run_append) simp
  then have "run hash0 (Submit ''j1'' cfg0 0 # replicate 112 (Work 0 1)) svc1 = Some s'"
    by simp
  then show ?thesis
    using s'(2)
    by (simp add: get_training_job_def executed_fields to_dict_def)
       (simp add: job1_def TrainingJob_init_def)
qed

text \<open>
  Claim C1. \<^verbatim>\<open>cancel_training_job\<close> succeeds on the queued job and sets its status to
  \<^verbatim>\<open>cancelled\<close>. The id stays in the queue; the worker that dequeues it only checks that the
  id is stored, and \<^verbatim>\<open>_execute_training_job\<close> assigns \<^verbatim>\<open>running\<close> without reading the status:
  after four statements of the worker the cancelled job is \<^verbatim>\<open>running\<close>, and after the whole
  execution it is \<^verbatim>\<open>completed\<close> with progress 100.
\<close>

theorem cancelled_queued_job_runs:
  "fst (cancel_training_job ''j1'' 1 (snd (start_training ''j1'' cfg0 0 svc1))) \<and>
   observe [Submit ''j1'' cfg0 0, Cancel ''j1'' 1] ''j1'' = Some (''cancelled'', 0) \<and>
   observe ([Submit ''j1'' cfg0 0, Cancel ''j1'' 1] @ replicate 4 (Work 0 2)) ''j1'' =
     Some (''running'', 0) \<and>
   observe ([Submit ''j1'' cfg0 0, Cancel ''j1'' 1] @ replicate 112 (Work 0 2)) ''j1'' =
     Some (''completed'', 100)"
proof -
  have a: "fst (cancel_training_job ''j1'' 1 (snd (start_training ''j1'' cfg0 0 svc1)))"
    by (simp add: svc1_def eval_defs)
  let ?c = "job1\<lparr>status := ''cancelled'', completed_at := Some 1\<rparr>"
  have c: "\<exists>s. run hash0 [Submit ''j1'' cfg0 0, Cancel ''j1'' 1] svc1 = Some s \<and>
             int 0 < max_concurrent_jobs s \<and> workers s 0 = Idle \<and> job_queue s = [''j1''] \<and>
             map_of (training_jobs s) ''j1'' = Some ?c"
    by (simp add: svc1_def job1_def eval_defs)
  then obtain s where s: "run hash0 [Submit ''j1'' cfg0 0, Cancel ''j1'' 1] svc1 = Some s"
    "int 0 < max_concurrent_jobs s" "workers s 0 = Idle" "job_queue s = [''j1'']"
    "map_of (training_jobs s) ''j1'' = Some ?c"
    by blast
  have b: "observe [Submit ''j1'' cfg0 0, Cancel ''j1'' 1] ''j1'' = Some (''cancelled'', 0)"
    using s(1,5) by (simp add: observe_def svc1_def get_training_job_def job1_def TrainingJob_init_def)
  have "\<exists>s'. run hash0 (replicate 4 (Work 0 2)) s = Some s' \<and>
          map_of (training_jobs s') ''j1'' = Some (?c\<lparr>status := ''running''\<rparr>)"
    using s(2-5) by (simp add: eval_nat_numeral work_defs)
  then obtain s4 where s4: "run hash0 (replicate 4 (Work 0 2)) s = Some s4"
    "map_of (training_jobs s4) ''j1'' = Some (?c\<lparr>status := ''running''\<rparr>)"
    by blast
  have "run hash0 ([Submit ''j1'' cfg0 0, Cancel ''j1'' 1] @ replicate 4 (Work 0 2)) svc1 = Some s4"
    using s(1) s4(1) by (simp only: run_append) simp
  then have d: "observe ([Submit ''j1'' cfg0 0, Cancel ''j1'' 1] @ replicate 4 (Work 0 2)) ''j1'' =
      Some (''running'', 0)"
    using s4(2)
    by (simp add: observe_def svc1_def get_training_job_def job1_def TrainingJob_init_def)
  obtain s' where s': "run hash0 (replicate 112 (Work 0 2)) s = Some s'"
    "map_of (training_jobs s') ''j1'' = Some (executed hash0 2 ''j1'' ?c)"
    using execute_training_job [OF s(2-5), of hash0 2] by blast
  have "run hash0 ([Submit ''j1'' cfg0 0, Cancel ''j1'' 1] @ replicate 112 (Work 0 2)) svc1 = Some s'"
    using s(1) s'(1) by (simp only: run_append) simp
  then have e: "observe ([Submit ''j1'' cfg0 0, Cancel ''j1'' 1] @ replicate 112 (Work 0 2)) ''j1'' =
      Some (''completed'', 100)"
    using s'(2) by (simp add: observe_def svc1_def get_training_job_def executed_fields)
  show ?thesis
    using a b d e by simp
qed

text \<open>
  Claim C5. The first call of \<^verbatim>\<open>cancel_training_job\<close> on the queued job returns \<^verbatim>\<open>True\<close> and
  leaves the status \<^verbatim>\<open>cancelled\<close>. The id is still in the queue: the worker takes it, and line 94
  of \<^verbatim>\<open>_execute_training_job\<close> assigns \<^verbatim>\<open>running\<close> over \<^verbatim>\<open>cancelled\<close>. A second call of
  \<^verbatim>\<open>cancel_training_job\<close> on the same id then finds a running job and returns \<^verbatim>\<open>True\<close> again,
  where a job that was cancelled is to be refused.
\<close>

theorem cancel_twice_returns_true:
  "cancel_returns [Submit ''j1'' cfg0 0] ''j1'' 1 = Some True \<and>
   observe [Submit ''j1'' cfg0 0, Cancel ''j1'' 1] ''j1'' = Some (''cancelled'', 0) \<and>
   observe ([Submit ''j1'' cfg0 0, Cancel ''j1'' 1] @ replicate 4 (Work 0 2)) ''j1'' =
     Some (''running'', 0) \<and>
   cancel_returns ([Submit ''j1'' cfg0 0, Cancel ''j1'' 1] @ replicate 4 (Work 0 2)) ''j1'' 3 =
     Some True \<and>
   observe ([Submit ''j1'' cfg0 0, Cancel ''j1'' 1] @ replicate 4 (Work 0 2) @ [Cancel ''j1'' 3])
     ''j1'' = Some (''cancelled'', 0)"
proof -
  have a: "cancel_returns [Submit ''j1'' cfg0 0] ''j1'' 1 = Some True"
    by (simp add: cancel_returns_def eval_defs)
  let ?c = "job1\<lparr>status := ''cancelled'', completed_at := Some 1\<rparr>"
  have c: "\<exists>s. run hash0 [Submit ''j1'' cfg0 0, Cancel ''j1'' 1] svc1 = Some s \<and>
             int 0 < max_concurrent_jobs s \<and> workers s 0 = Idle \<and> job_queue s = [''j1''] \<and>
             map_of (training_jobs s) ''j1'' = Some ?c"
    by (simp add: svc1_def job1_def eval_defs)
  then obtain s where s: "run hash0 [Submit ''j1'' cfg0 0, Cancel ''j1'' 1] svc1 = Some s"
    "int 0 < max_concurrent_jobs s" "workers s 0 = Idle" "job_queue s = [''j1'']"
    "map_of (training_jobs s) ''j1'' = Some ?c"
    by blast
  have b: "observe [Submit ''j1'' cfg0 0, Cancel ''j1'' 1] ''j1'' = Some (''cancelled'', 0)"
    using s(1,5) by (simp add: observe_def svc1_def get_training_job_def job1_def TrainingJob_init_def)
  have "\<exists>s'. run hash0 (replicate 4 (Work 0 2)) s = Some s' \<and>
          map_of (training_jobs s') ''j1'' = Some (?c\<lparr>status := ''running''\<rparr>)"
    using s(2-5) by (simp add: eval_nat_numeral work_defs)
  then obtain s4 where s4: "run hash0 (replicate 4 (Work 0 2)) s = Some s4"
    "map_of (training_jobs s4) ''j1'' = Some (?c\<lparr>status := ''running''\<rparr>)"
    by blast
  have r4: "run hash0 ([Submit ''j1'' cfg0 0, Cancel ''j1'' 1] @ replicate 4 (Work 0 2)) svc1 = Some s4"
    using s(1) s4(1) by (simp only: run_append) simp
  then have d: "observe ([Submit ''j1'' cfg0 0, Cancel ''j1'' 1] @ replicate 4 (Work 0 2)) ''j1'' =
      Some (''running'', 0)"
    using s4(2)
    by (simp add: observe_def svc1_def get_training_job_def job1_def TrainingJob_init_def)
  have e: "cancel_returns ([Submit ''j1'' cfg0 0, Cancel ''j1'' 1] @ replicate 4 (Work 0 2)) ''j1'' 3 =
      Some True"
    using r4 s4(2) unfolding cancel_returns_def svc1_def
    by (simp add: cancel_training_job_def)
  have "run hash0 (([Submit ''j1'' cfg0 0, Cancel ''j1'' 1] @ replicate 4 (Work 0 2)) @ [Cancel ''j1'' 3])
          svc1 = Some (snd (cancel_training_job ''j1'' 3 s4))"
    using r4 by (simp only: run_append) simp
  then have f: "observe ([Submit ''j1'' cfg0 0, Cancel ''j1'' 1] @ replicate 4 (Work 0 2) @ [Cancel ''j1'' 3])
      ''j1'' = Some (''cancelled'', 0)"
    using s4(2)
    by (simp add: observe_def svc1_def get_training_job_def job1_def TrainingJob_init_def
        cancel_training_job_def map_of_map_entry)
  show ?thesis
    using a b d e f by simp
qed

text \<open>
  Claim C2. The job is running with progress 1 when \<^verbatim>\<open>cancel_training_job\<close> sets its status
  to \<^verbatim>\<open>cancelled\<close>. \<^verbatim>\<open>_simulate_training\<close> never reads the status: the next iteration runs
  (progress 2), the loop goes on to its last step, and \<^verbatim>\<open>_execute_training_job\<close> then overwrites
  \<^verbatim>\<open>cancelled\<close> with \<^verbatim>\<open>completed\<close>.
\<close>

theorem cancelled_running_job_completes:
  "observe (Submit ''j1'' cfg0 0 # replicate 7 (Work 0 1)) ''j1'' = Some (''running'', 1) \<and>
   observe (Submit ''j1'' cfg0 0 # replicate 7 (Work 0 1) @ [Cancel ''j1'' 2]) ''j1'' =
     Some (''cancelled'', 1) \<and>
   observe (Submit ''j1'' cfg0 0 # replicate 7 (Work 0 1) @ [Cancel ''j1'' 2, Work 0 3]) ''j1'' =
     Some (''cancelled'', 2) \<and>
   observe (Submit ''j1'' cfg0 0 # replicate 7 (Work 0 1) @ Cancel ''j1'' 2 # replicate 105 (Work 0 3))
     ''j1'' = Some (''completed'', 100)"
proof -
  let ?run = "job1\<lparr>status := ''running'', started_at := Some 1\<rparr>"
  let ?job = "loop_from 0 1 ?run"
  let ?pre = "Submit ''j1'' cfg0 0 # replicate 7 (Work 0 1)"
  obtain t where t: "run hash0 (Submit ''j1'' cfg0 0 # replicate (6 + 1) (Work 0 1)) svc1 = Some t"
    "stands_at t 0 ''j1'' (loop_label 1) ?job"
    using training [of 1 1] by (auto simp: total_steps_def)
  have t1: "run hash0 ?pre svc1 = Some t"
    using t(1) by simp
  have a: "observe ?pre ''j1'' = Some (''running'', 1)"
    using observe_stands_at [OF t1 t(2)] by (simp add: loop_body_def progress_at_0)
  have st: "status ?job \<in> {''queued'', ''running''}"
    by (simp add: loop_body_def)
  let ?c = "?job\<lparr>status := ''cancelled'', completed_at := Some 2\<rparr>"
  obtain c where c: "step hash0 (Cancel ''j1'' 2) t = Some c" "stands_at c 0 ''j1'' (loop_label 1) ?c"
    using cancel_at [OF t(2) st, of 2 hash0] by blast
  have rc: "run hash0 (?pre @ [Cancel ''j1'' 2]) svc1 = Some c"
    using t1 c(1) by (simp only: run_append) simp
  have b: "observe (?pre @ [Cancel ''j1'' 2]) ''j1'' = Some (''cancelled'', 1)"
    using observe_stands_at [OF rc c(2)] by (simp add: loop_body_def progress_at_0)
  have l1: "loop_label 1 = In_loop 1"
    by (simp add: loop_label_def total_steps_def)
  obtain d where d: "step hash0 (Work 0 3) c = Some d"
    "stands_at d 0 ''j1'' (loop_label (Suc 1)) (loop_body 1 ?c)"
    using loop_step [of c 0 "''j1''" 1 _ hash0 3] c(2) unfolding l1 by blast
  have rd: "run hash0 (?pre @ [Cancel ''j1'' 2, Work 0 3]) svc1 = Some d"
    using t1 c(1) d(1) by (simp only: run_append) simp
  have e: "observe (?pre @ [Cancel ''j1'' 2, Work 0 3]) ''j1'' = Some (''cancelled'', 2)"
    using observe_stands_at [OF rd d(2)] by (simp add: loop_body_def progress_at_1)
  have c1: "stands_at c 0 ''j1'' (In_loop 1) ?c"
    using c(2) l1 by simp
  obtain f where f: "run hash0 (replicate (total_steps - 1 + 6) (Work 0 3)) c = Some f"
    "map_of (training_jobs f) ''j1'' =
       Some ((loop_from 1 (total_steps - 1) ?c)
               \<lparr>status := ''completed'', completed_at := Some 3, progress := 100,
                model_path := Some (''models/'' @ model_name ?c @ ''_'' @ ''j1''),
                extra_attrs := AList.update ''metrics'' (job_metrics hash0 ''j1'') (extra_attrs ?c)\<rparr>)"
    using finish_from_loop [OF c1, of hash0 3] by (auto simp: total_steps_def)
  have "run hash0 (?pre @ Cancel ''j1'' 2 # replicate 105 (Work 0 3)) svc1 = Some f"
    using t1 c(1) f(1) by (simp only: run_append) (simp add: total_steps_def)
  then have g: "observe (?pre @ Cancel ''j1'' 2 # replicate 105 (Work 0 3)) ''j1'' =
      Some (''completed'', 100)"
    using f(2) by (simp add: observe_def svc1_def get_training_job_def)
  show ?thesis
    using a b e g by simp
qed

section \<open>Invariants of the service\<close>

subsection \<open>What one statement does to the job it works on\<close>

text \<open>
  \<open>job_effect\<close> and \<open>next_worker\<close> restate \<open>exec\<close> for the job a worker holds: what the
  statement at a label assigns, and where the worker stands afterwards.
\<close>

fun job_effect ::
  "(string \<Rightarrow> int) \<Rightarrow> datetime \<Rightarrow> string \<Rightarrow> label \<Rightarrow> TrainingJob \<Rightarrow> TrainingJob" where
  "job_effect h now jid At_status_running job = job\<lparr>status := ''running''\<rparr>"
| "job_effect h now jid At_started_at job = job\<lparr>started_at := Some now\<rparr>"
| "job_effect h now jid (In_loop k) job = loop_body k job"
| "job_effect h now jid At_status_completed job = job\<lparr>status := ''completed''\<rparr>"
| "job_effect h now jid At_completed_at job = job\<lparr>completed_at := Some now\<rparr>"
| "job_effect h now jid At_progress job = job\<lparr>progress := 100\<rparr>"
| "job_effect h now jid At_model_path job =
     job\<lparr>model_path := Some (''models/'' @ model_name job @ ''_'' @ jid)\<rparr>"
| "job_effect h now jid At_metrics job =
     job\<lparr>extra_attrs := AList.update ''metrics'' (job_metrics h jid) (extra_attrs job)\<rparr>"
| "job_effect h now jid (At_status_failed msg) job = job\<lparr>status := ''failed''\<rparr>"
| "job_effect h now jid (At_error_message msg) job = job\<lparr>error_message := Some msg\<rparr>"
| "job_effect h now jid At_failed_at job = job\<lparr>completed_at := Some now\<rparr>"
| "job_effect h now jid l job = job"

fun next_worker :: "string \<Rightarrow> label \<Rightarrow> worker" where
  "next_worker jid At_member = Busy jid At_lookup"
| "next_worker jid At_lookup = Busy jid At_status_running"
| "next_worker jid At_status_running = Busy jid At_started_at"
| "next_worker jid At_started_at = Busy jid At_running_jobs"
| "next_worker jid At_running_jobs = Busy jid (loop_label 0)"
| "next_worker jid (In_loop k) = Busy jid (loop_label (Suc k))"
| "next_worker jid At_status_completed = Busy jid At_completed_at"
| "next_worker jid At_completed_at = Busy jid At_progress"
| "next_worker jid At_progress = Busy jid At_model_path"
| "next_worker jid At_model_path = Busy jid At_metrics"
| "next_worker jid At_metrics = Busy jid At_finally"
| "next_worker jid (At_status_failed msg) = Busy jid (At_error_message msg)"
| "next_worker jid (At_error_message msg) = Busy jid At_failed_at"
| "next_worker jid At_failed_at = Busy jid At_finally"
| "next_worker jid At_finally = Idle"

lemma exec_effect:
  assumes "map_of (training_jobs s) jid = Some job" and "exec h now jid l s = (w, s')"
  shows "w = next_worker jid l \<and> job_queue s' = job_queue s \<and> workers s' = workers s \<and>
         max_concurrent_jobs s' = max_concurrent_jobs s \<and>
         map_of (training_jobs s') = (map_of (training_jobs s))(jid \<mapsto> job_effect h now jid l job)"
  using assms
  by (cases l) (auto simp: modify_job_def map_of_map_entry map_upd_triv)

subsection \<open>The invariant\<close>

text \<open>
  An id is pending at most once: the queue has no duplicates, no worker holds an id that is
  in the queue, and no two workers hold the same id. A job whose id is in the queue has not
  run (progress 0); a job held by a worker has the progress that the worker's label
  determines (\<open>job_ok\<close>); every stored job has its progress in range, 100 when it is
  \<^verbatim>\<open>completed\<close>.
\<close>

definition open_status :: "TrainingJob \<Rightarrow> bool" where
  "open_status job \<longleftrightarrow> status job \<noteq> ''completed'' \<and> status job \<noteq> ''failed''"

definition in_range :: "TrainingJob \<Rightarrow> bool" where
  "in_range job \<longleftrightarrow>
     0 \<le> progress job \<and> progress job \<le> 100 \<and> (status job = ''completed'' \<longrightarrow> progress job = 100)"

fun job_ok :: "label \<Rightarrow> TrainingJob \<Rightarrow> bool" where
  "job_ok (In_loop k) job \<longleftrightarrow>
     k < total_steps \<and> open_status job \<and> progress job = (if k = 0 then 0 else progress_at (k - 1))"
| "job_ok At_status_completed job \<longleftrightarrow> progress job = 100"
| "job_ok At_completed_at job \<longleftrightarrow> progress job = 100"
| "job_ok At_progress job \<longleftrightarrow> progress job = 100"
| "job_ok At_model_path job \<longleftrightarrow> progress job = 100"
| "job_ok At_metrics job \<longleftrightarrow> progress job = 100"
| "job_ok (At_status_failed msg) job \<longleftrightarrow> True"
| "job_ok (At_error_message msg) job \<longleftrightarrow> True"
| "job_ok At_failed_at job \<longleftrightarrow> True"
| "job_ok At_finally job \<longleftrightarrow> True"
| "job_ok l job \<longleftrightarrow> progress job = 0 \<and> open_status job"

definition inv :: "TrainingService \<Rightarrow> bool" where
  "inv s \<longleftrightarrow>
     distinct (job_queue s) \<and>
     (\<forall>i jid l. workers s i = Busy jid l \<longrightarrow>
        jid \<notin> set (job_queue s) \<and>
        (\<forall>i' l'. workers s i' = Busy jid l' \<longrightarrow> i' = i) \<and>
        (\<exists>job. map_of (training_jobs s) jid = Some job \<and> job_ok l job)) \<and>
     (\<forall>jid \<in> set (job_queue s).
        \<exists>job. map_of (training_jobs s) jid = Some job \<and> progress job = 0 \<and> open_status job) \<and>
     (\<forall>jid job. map_of (training_jobs s) jid = Some job \<longrightarrow> in_range job)"

lemma job_effect_ok:
  assumes "job_ok l job" and "in_range job" and "next_worker jid l = Busy jid l'"
  shows "job_ok l' (job_effect h now jid l job) \<and> in_range (job_effect h now jid l job)"
proof (cases l)
  case (In_loop k)
  then have k: "k < total_steps" "open_status job"
    using assms(1) by simp_all
  have r: "1 \<le> progress_at k \<and> progress_at k \<le> 100"
    using progress_at_range [OF k(1)] .
  have e: "progress_at k = 100" if "\<not> Suc k < total_steps"
  proof -
    have "k = total_steps - 1"
      using that k(1) by arith
    then show ?thesis
      using progress_at_last by simp
  qed
  show ?thesis
    using In_loop k r e assms(2,3)
    by (auto simp: loop_label_def loop_body_def open_status_def in_range_def split: if_splits)
qed (use assms in \<open>auto simp: open_status_def in_range_def loop_label_def total_steps_def\<close>)

lemma job_effect_progress:
  assumes "job_ok l job" and "in_range job"
  shows "progress job \<le> progress (job_effect h now jid l job) \<and>
         (\<not> open_status job \<longrightarrow> progress (job_effect h now jid l job) = progress job)"
proof (cases l)
  case (In_loop k)
  then have k: "k < total_steps" "open_status job"
    "progress job = (if k = 0 then 0 else progress_at (k - 1))"
    using assms(1) by simp_all
  have "progress job \<le> progress_at k"
  proof (cases "k = 0")
    case True
    then show ?thesis using k(3) progress_at_range [OF k(1)] by simp
  next
    case False
    then show ?thesis using k(3) progress_at_mono [of "k - 1" k] k(1) by simp
  qed
  then show ?thesis
    using In_loop k(2) by (simp add: loop_body_def)
qed (use assms in \<open>auto simp: in_range_def\<close>)

lemma job_ok_same_progress:
  assumes "job_ok l job" and "progress job' = progress job" and "open_status job'"
  shows "job_ok l job'"
  using assms by (cases l) auto

lemma inv_worker_update:
  assumes "inv s" and "workers s i = Busy jid l"
    and "job_queue s' = job_queue s" and "workers s' = (workers s)(i := w')"
    and "map_of (training_jobs s') = (map_of (training_jobs s))(jid \<mapsto> job')"
    and "w' = Idle \<or> (\<exists>l'. w' = Busy jid l' \<and> job_ok l' job')" and "in_range job'"
  shows "inv s'"
  unfolding inv_def
proof (intro conjI allI impI ballI)
  show "distinct (job_queue s')"
    using assms(1,3) by (simp add: inv_def)
next
  fix i0 jid0 l0
  assume b: "workers s' i0 = Busy jid0 l0"
  show "jid0 \<notin> set (job_queue s')"
    using assms b unfolding inv_def by (auto split: if_splits)
  show "\<exists>job. map_of (training_jobs s') jid0 = Some job \<and> job_ok l0 job"
    using assms b unfolding inv_def by (auto split: if_splits)
  fix i' l'
  assume "workers s' i' = Busy jid0 l'"
  then show "i' = i0"
    using assms b unfolding inv_def by (auto split: if_splits)
next
  fix jid0
  assume "jid0 \<in> set (job_queue s')"
  then show "\<exists>job. map_of (training_jobs s') jid0 = Some job \<and> progress job = 0 \<and> open_status job"
    using assms unfolding inv_def by (auto split: if_splits)
next
  fix jid0 job0
  assume "map_of (training_jobs s') jid0 = Some job0"
  then show "in_range job0"
    using assms unfolding inv_def by (auto split: if_splits)
qed

lemma inv_pop:
  assumes "inv s" and "workers s i = Idle" and "job_queue s = jid # rest"
    and "job_queue s' = rest" and "workers s' = (workers s)(i := Busy jid At_member)"
    and "training_jobs s' = training_jobs s"
  shows "inv s'"
  unfolding inv_def
proof (intro conjI allI impI ballI)
  show "distinct (job_queue s')"
    using assms by (simp add: inv_def)
next
  fix i0 jid0 l0
  assume b: "workers s' i0 = Busy jid0 l0"
  show "jid0 \<notin> set (job_queue s')"
    using assms b unfolding inv_def by (auto split: if_splits)
  show "\<exists>job. map_of (training_jobs s') jid0 = Some job \<and> job_ok l0 job"
    using assms b unfolding inv_def by (auto split: if_splits)
  fix i' l'
  assume "workers s' i' = Busy jid0 l'"
  then show "i' = i0"
    using assms b unfolding inv_def by (auto split: if_splits)
next
  fix jid0
  assume "jid0 \<in> set (job_queue s')"
  then show "\<exists>job. map_of (training_jobs s') jid0 = Some job \<and> progress job = 0 \<and> open_status job"
    using assms unfolding inv_def by (auto split: if_splits)
next
  fix jid0 job0
  assume "map_of (training_jobs s') jid0 = Some job0"
  then show "in_range job0"
    using assms unfolding inv_def by (auto split: if_splits)
qed

lemma inv_submit:
  assumes "inv s" and "map_of (training_jobs s) jid = None"
    and "job_queue s' = job_queue s @ [jid]" and "workers s' = workers s"
    and "map_of (training_jobs s') = (map_of (training_jobs s))(jid \<mapsto> job)"
    and "progress job = 0" and "open_status job"
  shows "inv s'"
proof -
  have nq: "jid \<notin> set (job_queue s)"
    using assms(1,2) unfolding inv_def by auto
  have nw: "workers s i \<noteq> Busy jid l" for i l
    using assms(1,2) unfolding inv_def by fastforce
  show ?thesis
    unfolding inv_def
  proof (intro conjI allI impI ballI)
    show "distinct (job_queue s')"
      using assms nq by (simp add: inv_def)
  next
    fix i0 jid0 l0
    assume b: "workers s' i0 = Busy jid0 l0"
    then have ne: "jid0 \<noteq> jid"
      using nw assms(4) by auto
    show "jid0 \<notin> set (job_queue s')"
      using assms b ne unfolding inv_def by auto
    show "\<exists>job. map_of (training_jobs s') jid0 = Some job \<and> job_ok l0 job"
      using assms b ne unfolding inv_def by auto
    fix i' l'
    assume "workers s' i' = Busy jid0 l'"
    then show "i' = i0"
      using assms b unfolding inv_def by auto
  next
    fix jid0
    assume "jid0 \<in> set (job_queue s')"
    then show "\<exists>job. map_of (training_jobs s') jid0 = Some job \<and> progress job = 0 \<and> open_status job"
      using assms unfolding inv_def by (auto split: if_splits)
  next
    fix jid0 job0
    assume "map_of (training_jobs s') jid0 = Some job0"
    then show "in_range job0"
      using assms unfolding inv_def by (auto simp: in_range_def open_status_def split: if_splits)
  qed
qed

lemma inv_cancel:
  assumes "inv s" and "map_of (training_jobs s) jid = Some job"
    and "job_queue s' = job_queue s" and "workers s' = workers s"
    and "map_of (training_jobs s') = (map_of (training_jobs s))(jid \<mapsto> job')"
    and "progress job' = progress job" and "status job' = ''cancelled''"
  shows "inv s'"
  unfolding inv_def
proof (intro conjI allI impI ballI)
  have o: "open_status job'"
    using assms(7) by (simp add: open_status_def)
  show "distinct (job_queue s')"
    using assms by (simp add: inv_def)
  fix i0 jid0 l0
  assume b: "workers s' i0 = Busy jid0 l0"
  show "jid0 \<notin> set (job_queue s')"
    using assms b unfolding inv_def by (auto split: if_splits)
  show "\<exists>job. map_of (training_jobs s') jid0 = Some job \<and> job_ok l0 job"
  proof (cases "jid0 = jid")
    case True
    then have "job_ok l0 job"
      using assms(1,2,4) b unfolding inv_def by fastforce
    then show ?thesis
      using True assms(5,6) o job_ok_same_progress by auto
  next
    case False
    then show ?thesis
      using assms b unfolding inv_def by auto
  qed
  fix i' l'
  assume "workers s' i' = Busy jid0 l'"
  then show "i' = i0"
    using assms b unfolding inv_def by (auto split: if_splits)
next
  have o: "open_status job'"
    using assms(7) by (simp add: open_status_def)
  fix jid0
  assume "jid0 \<in> set (job_queue s')"
  then show "\<exists>job. map_of (training_jobs s') jid0 = Some job \<and> progress job = 0 \<and> open_status job"
    using assms o unfolding inv_def by (auto split: if_splits)
next
  fix jid0 job0
  assume "map_of (training_jobs s') jid0 = Some job0"
  then show "in_range job0"
    using assms unfolding inv_def by (auto simp: in_range_def split: if_splits)
qed

lemma start_training_effect:
  "start_training jid cfg now s = (job, s') \<Longrightarrow>
     job_queue s' = job_queue s @ [jid] \<and> workers s' = workers s \<and>
     max_concurrent_jobs s' = max_concurrent_jobs s \<and>
     map_of (training_jobs s') = (map_of (training_jobs s))(jid \<mapsto> job) \<and>
     progress job = 0 \<and> status job = ''queued''"
  by (auto simp: start_training_def Let_def update_conv' TrainingJob_init_def)

lemma start_hyperparameter_tuning_effect:
  "start_hyperparameter_tuning jid req now s = Inr (job, s') \<Longrightarrow>
     job_queue s' = job_queue s @ [jid] \<and> workers s' = workers s \<and>
     max_concurrent_jobs s' = max_concurrent_jobs s \<and>
     map_of (training_jobs s') = (map_of (training_jobs s))(jid \<mapsto> job) \<and>
     progress job = 0 \<and> status job = ''queued''"
  by (auto simp: start_hyperparameter_tuning_def Let_def update_conv' TrainingJob_init_def
      sum_bind_def split: sum.splits)

lemma cancel_training_job_effect:
  assumes "cancel_training_job jid now s = (True, s')"
  shows "\<exists>job. map_of (training_jobs s) jid = Some job \<and>
           job_queue s' = job_queue s \<and> workers s' = workers s \<and>
           max_concurrent_jobs s' = max_concurrent_jobs s \<and>
           map_of (training_jobs s') =
             (map_of (training_jobs s))(jid \<mapsto> job\<lparr>status := ''cancelled'', completed_at := Some now\<rparr>)"
  using assms
  by (auto simp: cancel_training_job_def map_of_map_entry split: option.splits if_splits)

lemma cancel_training_job_refused:
  "cancel_training_job jid now s = (False, s') \<Longrightarrow> s' = s"
  by (auto simp: cancel_training_job_def split: option.splits if_splits)

lemma inv_step:
  assumes "inv s" and "step h ev s = Some s'"
  shows "inv s'"
proof (cases ev)
  case (Submit jid cfg now)
  then have n: "map_of (training_jobs s) jid = None"
    and s': "s' = snd (start_training jid cfg now s)"
    using assms(2) by (auto split: if_splits)
  obtain job where "start_training jid cfg now s = (job, s')"
    using s' by (cases "start_training jid cfg now s") auto
  from start_training_effect [OF this] show ?thesis
    using inv_submit [OF assms(1) n, of s' job] by (simp add: open_status_def)
next
  case (Submit_tuning jid req now)
  then have n: "map_of (training_jobs s) jid = None"
    using assms(2) by (auto split: if_splits)
  show ?thesis
  proof (cases "start_hyperparameter_tuning jid req now s")
    case (Inl e)
    then show ?thesis
      using assms Submit_tuning n by simp
  next
    case (Inr r)
    then have "start_hyperparameter_tuning jid req now s = Inr (fst r, s')"
      using assms(2) Submit_tuning n by (cases r) simp
    from start_hyperparameter_tuning_effect [OF this] show ?thesis
      using inv_submit [OF assms(1) n, of s' "fst r"] by (simp add: open_status_def)
  qed
next
  case (Cancel jid now)
  then have s': "s' = snd (cancel_training_job jid now s)"
    using assms(2) by simp
  show ?thesis
  proof (cases "fst (cancel_training_job jid now s)")
    case True
    then have "cancel_training_job jid now s = (True, s')"
      using s' by (cases "cancel_training_job jid now s") auto
    from cancel_training_job_effect [OF this] obtain job where
      "map_of (training_jobs s) jid = Some job" "job_queue s' = job_queue s"
      "workers s' = workers s"
      "map_of (training_jobs s') =
         (map_of (training_jobs s))(jid \<mapsto> job\<lparr>status := ''cancelled'', completed_at := Some now\<rparr>)"
      by blast
    then show ?thesis
      using inv_cancel [OF assms(1), of jid job s'] by simp
  next
    case False
    then have "cancel_training_job jid now s = (False, s')"
      using s' by (cases "cancel_training_job jid now s") auto
    then show ?thesis
      using cancel_training_job_refused assms(1) by blast
  qed
next
  case (Work i now)
  then have s': "s' = training_worker h i now s"
    using assms(2) by (auto split: if_splits)
  show ?thesis
  proof (cases "workers s i")
    case Idle
    show ?thesis
    proof (cases "job_queue s")
      case Nil
      then show ?thesis
        using s' Idle assms(1) by (simp add: training_worker_def)
    next
      case (Cons jid rest)
      show ?thesis
        using inv_pop [OF assms(1) Idle Cons, of s'] s' Idle Cons
        by (simp add: training_worker_def)
    qed
  next
    case (Busy jid l)
    then obtain job where job: "map_of (training_jobs s) jid = Some job" "job_ok l job"
      using assms(1) unfolding inv_def by blast
    have r: "in_range job"
      using assms(1) job(1) unfolding inv_def by blast
    obtain w s1 where e: "exec h now jid l s = (w, s1)"
      by (cases "exec h now jid l s") auto
    note eff = exec_effect [OF job(1) e]
    have s1: "s' = s1\<lparr>workers := (workers s1)(i := w)\<rparr>"
      using s' Busy e by (simp add: training_worker_def)
    have ok: "w = Idle \<or> (\<exists>l'. w = Busy jid l' \<and> job_ok l' (job_effect h now jid l job))"
    proof (cases w)
      case Idle
      then show ?thesis by simp
    next
      case (Busy jid' l')
      then have "next_worker jid l = Busy jid l'"
        using eff by (cases l) auto
      then show ?thesis
        using job_effect_ok [OF job(2) r, of jid l' h now] Busy eff by (cases l) auto
    qed
    have r': "in_range (job_effect h now jid l job)"
    proof (cases "next_worker jid l")
      case Idle
      then have "l = At_finally"
        by (cases l) auto
      then show ?thesis using r by simp
    next
      case (Busy jid' l')
      then have "next_worker jid l = Busy jid l'"
        by (cases l) auto
      then show ?thesis
        using job_effect_ok [OF job(2) r, of jid l' h now] by simp
    qed
    show ?thesis
      using inv_worker_update [OF assms(1) \<open>workers s i = Busy jid l\<close>, of s' w
          "job_effect h now jid l job"] eff ok r' s1
      by simp
  qed
next
  case (Raise i msg)
  then obtain jid l where b: "workers s i = Busy jid l"
    and s': "s' = s\<lparr>workers := (workers s)(i := Busy jid (At_status_failed msg))\<rparr>"
    using assms(2) by (auto split: if_splits worker.splits)
  obtain job where job: "map_of (training_jobs s) jid = Some job"
    using assms(1) b unfolding inv_def by blast
  have r: "in_range job"
    using assms(1) job unfolding inv_def by blast
  show ?thesis
    using inv_worker_update [OF assms(1) b, of s' "Busy jid (At_status_failed msg)" job] s' job r
    by (simp add: map_upd_triv)
qed

lemma inv_init: "inv (TrainingService_init cfg)"
  by (simp add: inv_def TrainingService_init_def)

text \<open>The states of the service: the initial one, and any state a step leads to.\<close>

inductive reachable :: "(string \<Rightarrow> int) \<Rightarrow> int option \<Rightarrow> TrainingService \<Rightarrow> bool"
  for h :: "string \<Rightarrow> int" and cfg :: "int option" where
  start: "reachable h cfg (TrainingService_init cfg)"
| next_state: "reachable h cfg s \<Longrightarrow> step h ev s = Some s' \<Longrightarrow> reachable h cfg s'"

lemma reachable_inv: "reachable h cfg s \<Longrightarrow> inv s"
  by (induction rule: reachable.induct) (auto intro: inv_init inv_step)

lemma run_reachable:
  "reachable h cfg s \<Longrightarrow> run h evs s = Some s' \<Longrightarrow> reachable h cfg s'"
proof (induction evs arbitrary: s)
  case Nil
  then show ?case by simp
next
  case (Cons ev evs)
  then show ?case
    by (auto split: option.splits intro: reachable.next_state)
qed

lemma step_progress:
  assumes "inv s" and "step h ev s = Some s'" and "map_of (training_jobs s) jid = Some job"
  shows "\<exists>job'. map_of (training_jobs s') jid = Some job' \<and> progress job \<le> progress job' \<and>
           (\<not> open_status job \<longrightarrow> progress job' = progress job)"
proof (cases ev)
  case (Submit jid0 cfg now)
  then have n: "map_of (training_jobs s) jid0 = None"
    and s': "s' = snd (start_training jid0 cfg now s)"
    using assms(2) by (auto split: if_splits)
  obtain job0 where "start_training jid0 cfg now s = (job0, s')"
    using s' by (cases "start_training jid0 cfg now s") auto
  from start_training_effect [OF this] show ?thesis
    using n assms(3) by auto
next
  case (Submit_tuning jid0 req now)
  then have n: "map_of (training_jobs s) jid0 = None"
    using assms(2) by (auto split: if_splits)
  show ?thesis
  proof (cases "start_hyperparameter_tuning jid0 req now s")
    case (Inl e)
    then show ?thesis
      using assms Submit_tuning n by simp
  next
    case (Inr r)
    then have "start_hyperparameter_tuning jid0 req now s = Inr (fst r, s')"
      using assms(2) Submit_tuning n by (cases r) simp
    from start_hyperparameter_tuning_effect [OF this] show ?thesis
      using n assms(3) by auto
  qed
next
  case (Cancel jid0 now)
  then have s': "s' = snd (cancel_training_job jid0 now s)"
    using assms(2) by simp
  show ?thesis
  proof (cases "fst (cancel_training_job jid0 now s)")
    case True
    then have "cancel_training_job jid0 now s = (True, s')"
      using s' by (cases "cancel_training_job jid0 now s") auto
    from cancel_training_job_effect [OF this] show ?thesis
      using assms(3) by auto
  next
    case False
    then have "cancel_training_job jid0 now s = (False, s')"
      using s' by (cases "cancel_training_job jid0 now s") auto
    then show ?thesis
      using cancel_training_job_refused assms(3) by blast
  qed
next
  case (Work i now)
  then have s': "s' = training_worker h i now s"
    using assms(2) by (auto split: if_splits)
  show ?thesis
  proof (cases "workers s i")
    case Idle
    then show ?thesis
      using s' assms(3) by (cases "job_queue s") (simp_all add: training_worker_def)
  next
    case (Busy jid0 l)
    then obtain job0 where job0: "map_of (training_jobs s) jid0 = Some job0" "job_ok l job0"
      using assms(1) unfolding inv_def by blast
    have r: "in_range job0"
      using assms(1) job0(1) unfolding inv_def by blast
    obtain w s1 where e: "exec h now jid0 l s = (w, s1)"
      by (cases "exec h now jid0 l s") auto
    note eff = exec_effect [OF job0(1) e]
    have s1: "map_of (training_jobs s') =
                (map_of (training_jobs s))(jid0 \<mapsto> job_effect h now jid0 l job0)"
      using s' Busy e eff by (simp add: training_worker_def)
    show ?thesis
      using s1 job0(1) assms(3) job_effect_progress [OF job0(2) r, of h now jid0]
      by (cases "jid = jid0") auto
  qed
next
  case (Raise i msg)
  then show ?thesis
    using assms(2,3) by (auto split: if_splits worker.splits)
qed

text \<open>
  Claim C6, as the code has it. In every state the service can reach, the progress of every
  job is an integer between 0 and 100, and a job whose status is \<^verbatim>\<open>completed\<close> has progress
  100. No step of the service, of a worker or of a caller, lowers the progress of a job (so it
  is non-decreasing while the job is running), and once the status is \<^verbatim>\<open>completed\<close> or
  \<^verbatim>\<open>failed\<close> the progress no longer changes.
\<close>

theorem progress_spec:
  assumes "reachable h cfg s" and "get_training_job s jid = Some job"
  shows "0 \<le> progress job \<and> progress job \<le> 100 \<and>
         (status job = ''completed'' \<longrightarrow> progress job = 100) \<and>
         (\<forall>ev s'. step h ev s = Some s' \<longrightarrow>
            (\<exists>job'. get_training_job s' jid = Some job' \<and> progress job \<le> progress job' \<and>
               (status job \<in> {''completed'', ''failed''} \<longrightarrow> progress job' = progress job)))"
proof -
  have i: "inv s"
    using assms(1) by (rule reachable_inv)
  have j: "map_of (training_jobs s) jid = Some job"
    using assms(2) by (simp add: get_training_job_def)
  have "in_range job"
    using i j unfolding inv_def by blast
  moreover have "\<exists>job'. get_training_job s' jid = Some job' \<and> progress job \<le> progress job' \<and>
      (status job \<in> {''completed'', ''failed''} \<longrightarrow> progress job' = progress job)"
    if "step h ev s = Some s'" for ev s'
    using step_progress [OF i that j] by (auto simp: get_training_job_def open_status_def)
  ultimately show ?thesis
    by (simp add: in_range_def)
qed

text \<open>
  The theorem at the state where the one job has run its first iteration, and the step that
  runs the second.
\<close>

theorem progress_spec_witness:
  "(case run hash0 (Submit ''j1'' cfg0 0 # replicate 7 (Work 0 1)) svc1 of
      None \<Rightarrow> False
    | Some s \<Rightarrow>
        reachable hash0 (Some 1) s \<and>
        (case get_training_job s ''j1'' of
           None \<Rightarrow> False
         | Some job \<Rightarrow>
             status job = ''running'' \<and> progress job = 1 \<and>
             (case step hash0 (Work 0 2) s of
                None \<Rightarrow> False
              | Some s' \<Rightarrow>
                  (\<exists>job'. get_training_job s' ''j1'' = Some job' \<and>
                     progress job \<le> progress job'))))"
proof -
  let ?job = "loop_from 0 1 (job1\<lparr>status := ''running'', started_at := Some 1\<rparr>)"
  obtain s where s: "run hash0 (Submit ''j1'' cfg0 0 # replicate (6 + 1) (Work 0 1)) svc1 = Some s"
    "stands_at s 0 ''j1'' (loop_label 1) ?job"
    using training [of 1 1] by (auto simp: total_steps_def)
  have r: "reachable hash0 (Some 1) s"
    using run_reachable [OF reachable.start s(1) [unfolded svc1_def]] .
  have g: "get_training_job s ''j1'' = Some ?job"
    using s(2) by (simp add: stands_at_def get_training_job_def)
  have t1: "run hash0 (Submit ''j1'' cfg0 0 # replicate 7 (Work 0 1)) svc1 = Some s"
    using s(1) by simp
  have "int 0 < max_concurrent_jobs s"
    using s(2) by (simp add: stands_at_def)
  then obtain s' where s': "step hash0 (Work 0 2) s = Some s'"
    by simp
  have p: "\<exists>job'. get_training_job s' ''j1'' = Some job' \<and> progress ?job \<le> progress job'"
    using progress_spec [OF r g] s' by blast
  have q: "status ?job = ''running'' \<and> progress ?job = 1"
    by (simp add: loop_body_def progress_at_0)
  show ?thesis
    unfolding t1 option.case g s' using r p q by blast
qed

text \<open>
  The claim as stated fails. After the last iteration of the loop the job has progress 100
  while its status is still \<^verbatim>\<open>running\<close>, so progress 100 does not imply \<^verbatim>\<open>completed\<close>. And a job
  cancelled while running has the terminal status \<^verbatim>\<open>cancelled\<close> with progress 1, and progress
  2 one worker step later: the progress of a cancelled job is not frozen.
\<close>

theorem progress_counterexample:
  "observe (Submit ''j1'' cfg0 0 # replicate 106 (Work 0 1)) ''j1'' = Some (''running'', 100) \<and>
   observe (Submit ''j1'' cfg0 0 # replicate 7 (Work 0 1) @ [Cancel ''j1'' 2]) ''j1'' =
     Some (''cancelled'', 1) \<and>
   observe (Submit ''j1'' cfg0 0 # replicate 7 (Work 0 1) @ [Cancel ''j1'' 2, Work 0 3]) ''j1'' =
     Some (''cancelled'', 2)"
proof -
  let ?run = "job1\<lparr>status := ''running'', started_at := Some 1\<rparr>"
  obtain s where s: "run hash0 (Submit ''j1'' cfg0 0 # replicate (6 + 100) (Work 0 1)) svc1 = Some s"
    "stands_at s 0 ''j1'' (loop_label 100) (loop_from 0 100 ?run)"
    using training [of 100 1] by (auto simp: total_steps_def)
  have a: "observe (Submit ''j1'' cfg0 0 # replicate 106 (Work 0 1)) ''j1'' = Some (''running'', 100)"
    using observe_stands_at [OF s] by (simp add: loop_from_frame loop_from_progress progress_at_99)
  obtain t where t: "run hash0 (Submit ''j1'' cfg0 0 # replicate (6 + 1) (Work 0 1)) svc1 = Some t"
    "stands_at t 0 ''j1'' (loop_label 1) (loop_from 0 1 ?run)"
    using training [of 1 1] by (auto simp: total_steps_def)
  let ?job = "loop_from 0 1 ?run"
  have st: "status ?job \<in> {''queued'', ''running''}"
    by (simp add: loop_body_def)
  obtain c where c: "step hash0 (Cancel ''j1'' 2) t = Some c"
    "stands_at c 0 ''j1'' (loop_label 1) (?job\<lparr>status := ''cancelled'', completed_at := Some 2\<rparr>)"
    using cancel_at [OF t(2) st, of 2 hash0] by blast
  have rc: "run hash0 (Submit ''j1'' cfg0 0 # replicate 7 (Work 0 1) @ [Cancel ''j1'' 2]) svc1 = Some c"
    using t(1) c(1) run_append [of hash0 "Submit ''j1'' cfg0 0 # replicate 7 (Work 0 1)" "[Cancel ''j1'' 2]" svc1]
    by simp
  have b: "observe (Submit ''j1'' cfg0 0 # replicate 7 (Work 0 1) @ [Cancel ''j1'' 2]) ''j1'' =
             Some (''cancelled'', 1)"
    using observe_stands_at [OF rc c(2)] by (simp add: loop_body_def progress_at_0)
  have l1: "loop_label 1 = In_loop 1"
    by (simp add: loop_label_def total_steps_def)
  obtain d where d: "step hash0 (Work 0 3) c = Some d"
    "stands_at d 0 ''j1'' (loop_label (Suc 1))
       (loop_body 1 (?job\<lparr>status := ''cancelled'', completed_at := Some 2\<rparr>))"
    using loop_step [of c 0 "''j1''" 1 _ hash0 3] c(2) unfolding l1 by blast
  have rd: "run hash0 (Submit ''j1'' cfg0 0 # replicate 7 (Work 0 1) @ [Cancel ''j1'' 2, Work 0 3]) svc1 = Some d"
    using t(1) c(1) d(1)
      run_append [of hash0 "Submit ''j1'' cfg0 0 # replicate 7 (Work 0 1)" "[Cancel ''j1'' 2, Work 0 3]" svc1]
    by simp
  have e: "observe (Submit ''j1'' cfg0 0 # replicate 7 (Work 0 1) @ [Cancel ''j1'' 2, Work 0 3]) ''j1'' =
             Some (''cancelled'', 2)"
    using observe_stands_at [OF rd d(2)] by (simp add: loop_body_def progress_at_1)
  show ?thesis
    using a b e by simp
qed

section \<open>The pool with executors that never return\<close>































end
